theory Spec2Isabelle
  imports Complex_Main "HOL-Library.AList"
begin

section \<open>Data model of forestutils\<close>

text \<open>
  A cell key is the named tuple \<^verbatim>\<open>XY_Coord(x, y)\<close> of two Python integers. Heights,
  the cell size and the thresholds are Python floats; they are modelled as real numbers.
  A Python dictionary keeps its keys in insertion order, so it is an association list
  whose keys are distinct: \<open>map_of\<close> is \<^verbatim>\<open>d.get(k)\<close>, \<open>AList.update\<close> is
  \<^verbatim>\<open>d[k] = v\<close> (an old key keeps its place, a new key goes to the end) and
  \<open>map fst\<close> lists the keys. A Python set is a list without duplicates, in one of its
  possible iteration orders.
\<close>

type_synonym XY_Coord = "int \<times> int"

type_synonym ('k, 'v) dict = "('k \<times> 'v) list"

datatype error = KeyError | ZeroDivisionError

text \<open>The command line options that the analysis reads from the global \<^verbatim>\<open>args\<close>.\<close>

record args =
  cellsize :: real
  joinedcells :: real
  slicedepth :: real
  grounddepth :: real
  utmzone :: int
  north :: bool

text \<open>
  A vertex of the point cloud as \<^verbatim>\<open>pointcloudfile.read\<close> yields it: the position and
  the other vertex attributes by name, in the order of the file's header (the ones
  \<^verbatim>\<open>update_colours\<close> collects in \<^verbatim>\<open>p_cols\<close>, whose names are not \<^verbatim>\<open>x\<close>, \<^verbatim>\<open>y\<close> or
  \<^verbatim>\<open>z\<close>). The reader is not among the source files; a file is the list of its points.
\<close>

record point =
  p_x :: real
  p_y :: real
  p_z :: real
  p_cols :: "(string, real) dict"

text \<open>
  The dictionaries of a \<^verbatim>\<open>MapObj\<close>, the points that \<^verbatim>\<open>pointcloudfile.read(self.file)\<close>
  yields, and the offset \<^verbatim>\<open>self.utm\<close> (its zone and hemisphere are those of \<^verbatim>\<open>args\<close>).
\<close>

record MapObj =
  file_points :: "point list"
  canopy :: "(XY_Coord, real) dict"
  density :: "(XY_Coord, int) dict"
  filtered_density :: "(XY_Coord, int) dict"
  ground :: "(XY_Coord, real) dict"
  colours :: "(XY_Coord, (string, real) dict) dict"
  trees :: "(XY_Coord, int) dict"
  utm_x :: real
  utm_y :: real

text \<open>
  The row that \<^verbatim>\<open>tree_data\<close> builds for one tree. Its nine fixed columns are fields and
  its colour columns are a dictionary of their own: the attributes of a point are taken
  to have other names than the fixed columns.
\<close>

record tree =
  latitude :: real
  longitude :: real
  UTM_X :: real
  UTM_Y :: real
  UTM_zone :: int
  height :: real
  area :: real
  base_altitude :: real
  point_count :: int
  colour_means :: "(string, real) dict"

section \<open>Helpers for dictionaries and loops that can raise\<close>

text \<open>\<^verbatim>\<open>d[k]\<close> raises KeyError on a missing key.\<close>

definition getitem :: "('k, 'v) dict \<Rightarrow> 'k \<Rightarrow> error + 'v" where
  "getitem d k = (case map_of d k of None \<Rightarrow> Inl KeyError | Some v \<Rightarrow> Inr v)"

text \<open>A \<^verbatim>\<open>for\<close> loop whose body may raise: the first exception ends the loop.\<close>

fun fold_err :: "('s \<Rightarrow> 'a \<Rightarrow> error + 's) \<Rightarrow> 's \<Rightarrow> 'a list \<Rightarrow> error + 's" where
  "fold_err f s [] = Inr s"
| "fold_err f s (v # vs) = (case f s v of Inl e \<Rightarrow> Inl e | Inr s' \<Rightarrow> fold_err f s' vs)"

section \<open>Grid quantizer\<close>

text \<open>\<^verbatim>\<open>coords(pos)\<close>: float division raises ZeroDivisionError when the cell size is 0.\<close>

definition coords :: "args \<Rightarrow> point \<Rightarrow> error + XY_Coord" where
  "coords a pos =
     (if cellsize a = 0 then Inl ZeroDivisionError
      else Inr (\<lfloor>p_x pos / cellsize a\<rfloor>, \<lfloor>p_y pos / cellsize a\<rfloor>))"

text \<open>
  \<^verbatim>\<open>neighbors(key)\<close>: the condition \<^verbatim>\<open>if a or b\<close> leaves out the pair of two zeros.
\<close>

definition neighbors :: "XY_Coord \<Rightarrow> XY_Coord list" where
  "neighbors key =
     [(fst key + a, snd key + b). a \<leftarrow> [-1, 0, 1], b \<leftarrow> [-1, 0, 1], (a, b) \<noteq> (0, 0)]"

section \<open>Ground smoother\<close>

text \<open>
  \<^verbatim>\<open>{ground_dict.get(n) for n in ns}\<close> followed by \<^verbatim>\<open>discard(None)\<close>: the set of the
  heights of the cells of \<open>ns\<close> that the ground map holds. It is a set of heights, so
  two cells of the same height count once.
\<close>

definition heights_of :: "(XY_Coord, real) dict \<Rightarrow> XY_Coord list \<Rightarrow> real list" where
  "heights_of ground_dict ns = remdups (List.map_filter (map_of ground_dict) ns)"

text \<open>
  \<^verbatim>\<open>sum(abs(ground_dict[k]-n) > 2*args.cellsize for n in adjacent)\<close>, for the height
  \<open>h\<close> of the cell \<open>k\<close>.
\<close>

definition probs :: "args \<Rightarrow> real \<Rightarrow> real list \<Rightarrow> nat" where
  "probs a h adjacent = length (filter (\<lambda>n. \<bar>h - n\<bar> > 2 * cellsize a) adjacent)"

text \<open>
  \<^verbatim>\<open>detect_issues(ground_dict, prior)\<close>. The candidates come as the list in which the loop
  visits them; \<^verbatim>\<open>ground_dict[k]\<close> is read, and raises KeyError for a candidate that is
  no cell of the map, only once the candidate has at least 6 neighbouring heights.
\<close>

fun detect_issues :: "args \<Rightarrow> (XY_Coord, real) dict \<Rightarrow> XY_Coord list \<Rightarrow> error + XY_Coord list" where
  "detect_issues a ground_dict [] = Inr []"
| "detect_issues a ground_dict (k # prior) =
     (let adjacent = heights_of ground_dict (neighbors k) in
      if length adjacent < 6 then detect_issues a ground_dict prior
      else (case getitem ground_dict k of
              Inl e \<Rightarrow> Inl e
            | Inr h \<Rightarrow>
                (case detect_issues a ground_dict prior of
                   Inl e \<Rightarrow> Inl e
                 | Inr problematic \<Rightarrow>
                     Inr (if probs a h adjacent \<ge> 3 then k # problematic else problematic))))"

text \<open>The body of the inner loop of \<^verbatim>\<open>smooth_ground\<close> for one problematic key.\<close>

definition relevel :: "args \<Rightarrow> XY_Coord list \<Rightarrow> XY_Coord \<Rightarrow> (XY_Coord, real) dict \<Rightarrow> (XY_Coord, real) dict" where
  "relevel a problematic key ground_dict =
     (let adjacent = heights_of ground_dict (filter (\<lambda>n. n \<notin> set problematic) (neighbors key)) in
      if adjacent = [] then ground_dict
      else AList.update key (min_list adjacent + 2 * cellsize a) ground_dict)"

text \<open>\<open>smooth_rounds r\<close> is \<open>r\<close> iterations of \<^verbatim>\<open>for _ in range(100)\<close>.\<close>

fun smooth_rounds :: "nat \<Rightarrow> args \<Rightarrow> (XY_Coord, real) dict \<Rightarrow> XY_Coord list \<Rightarrow> error + (XY_Coord, real) dict" where
  "smooth_rounds 0 a ground_dict prior = Inr ground_dict"
| "smooth_rounds (Suc r) a ground_dict prior =
     (case detect_issues a ground_dict prior of
        Inl e \<Rightarrow> Inl e
      | Inr problematic \<Rightarrow>
          smooth_rounds r a (fold (relevel a problematic) problematic ground_dict) problematic)"

text \<open>\<^verbatim>\<open>smooth_ground(ground_dict)\<close>: the first candidates are all cells of the map.\<close>

definition smooth_ground :: "args \<Rightarrow> (XY_Coord, real) dict \<Rightarrow> error + (XY_Coord, real) dict" where
  "smooth_ground a ground_dict = smooth_rounds 100 a ground_dict (map fst ground_dict)"

section \<open>Tree segmenter\<close>

text \<open>
  \<^verbatim>\<open>expand(old_key, com)\<close> walks the neighbours of \<open>old_key\<close> in their order;
  \<open>expand_loop\<close> is its \<^verbatim>\<open>for\<close> loop over the neighbours still to visit. The first
  neighbour that has no label ends the call (\<^verbatim>\<open>return\<close>). The first argument is the
  number of nested calls that Python still allows: at 0 the recursive call raises
  RecursionError, which unwinds every enclosing call and leaves the labels written so far.
  The result holds the labels and whether the call ended without that exception.
\<close>

fun expand_loop :: "nat \<Rightarrow> XY_Coord \<Rightarrow> XY_Coord list \<Rightarrow> (XY_Coord, int) dict \<Rightarrow> error + ((XY_Coord, int) dict \<times> bool)" where
  "expand_loop d old_key [] com = Inr (com, True)"
| "expand_loop d old_key (key # keys) com =
     (case map_of com key of
        None \<Rightarrow> Inr (com, True)
      | Some l \<Rightarrow>
          (case getitem com old_key of
             Inl e \<Rightarrow> Inl e
           | Inr l_old \<Rightarrow>
               if l = l_old then expand_loop d old_key keys com
               else if l < l_old then expand_loop d old_key keys (AList.update old_key l com)
               else (case d of
                       0 \<Rightarrow> Inr (AList.update key l_old com, False)
                     | Suc d' \<Rightarrow>
                         (case expand_loop d' key (neighbors key) (AList.update key l_old com) of
                            Inl e \<Rightarrow> Inl e
                          | Inr (com', finished) \<Rightarrow>
                              if finished then expand_loop d old_key keys com'
                              else Inr (com', False)))))"

definition expand :: "nat \<Rightarrow> XY_Coord \<Rightarrow> (XY_Coord, int) dict \<Rightarrow> error + ((XY_Coord, int) dict \<times> bool)" where
  "expand d old_key com = expand_loop d old_key (neighbors old_key) com"

text \<open>
  The loop of \<^verbatim>\<open>connected_components\<close> over \<^verbatim>\<open>tuple(input_dict)\<close>: a RecursionError
  (a RuntimeError) is caught and the loop goes on with the next key.
\<close>

fun components_loop :: "nat \<Rightarrow> XY_Coord list \<Rightarrow> (XY_Coord, int) dict \<Rightarrow> error + (XY_Coord, int) dict" where
  "components_loop d [] com = Inr com"
| "components_loop d (key # keys) com =
     (case expand d key com of
        Inl e \<Rightarrow> Inl e
      | Inr (com', finished) \<Rightarrow> components_loop d keys com')"

text \<open>\<^verbatim>\<open>connected_components(input_dict)\<close>, for the recursion limit \<open>d\<close>.\<close>

definition connected_components :: "nat \<Rightarrow> (XY_Coord, int) dict \<Rightarrow> error + (XY_Coord, int) dict" where
  "connected_components d input_dict = components_loop d (map fst input_dict) input_dict"

text \<open>
  The coarse key of a cell. Dividing by \<^verbatim>\<open>args.joinedcells\<close> raises ZeroDivisionError
  when it is 0; \<open>key_scale_step\<close> tests that before it takes the key.
\<close>

definition cc_key :: "args \<Rightarrow> XY_Coord \<Rightarrow> XY_Coord" where
  "cc_key a key =
     (\<lfloor>real_of_int (fst key) / joinedcells a\<rfloor>, \<lfloor>real_of_int (snd key) / joinedcells a\<rfloor>)"

text \<open>The body of the first loop of \<^verbatim>\<open>_tree_components\<close>, for one key of the density map.\<close>

definition key_scale_step :: "args \<Rightarrow> MapObj \<Rightarrow> (XY_Coord, XY_Coord list) dict \<Rightarrow> XY_Coord \<Rightarrow> error + (XY_Coord, XY_Coord list) dict" where
  "key_scale_step a m key_scale_record key =
     (case getitem (canopy m) key of
        Inl e \<Rightarrow> Inl e
      | Inr c \<Rightarrow>
          (case getitem (ground m) key of
             Inl e \<Rightarrow> Inl e
           | Inr g \<Rightarrow>
               if c - g > slicedepth a then
                 (if joinedcells a = 0 then Inl ZeroDivisionError
                  else (case map_of key_scale_record (cc_key a key) of
                          None \<Rightarrow> Inr (AList.update (cc_key a key) [key] key_scale_record)
                        | Some s \<Rightarrow> Inr (AList.update (cc_key a key) (List.insert key s) key_scale_record)))
               else Inr key_scale_record))"

text \<open>The body of the dictionary comprehension that copies the labels to the fine grid.\<close>

definition copy_labels :: "(XY_Coord, int) dict \<Rightarrow> (XY_Coord, int) dict \<Rightarrow> XY_Coord \<times> XY_Coord list \<Rightarrow> error + (XY_Coord, int) dict" where
  "copy_labels labels out kv =
     (if snd kv = [] then Inr out
      else (case getitem labels (fst kv) of
              Inl e \<Rightarrow> Inl e
            | Inr l \<Rightarrow> Inr (fold (\<lambda>s. AList.update s l) (snd kv) out)))"

text \<open>
  \<^verbatim>\<open>_tree_components()\<close>: the coarse keys are numbered in the order of their first cell,
  the labels are propagated, and every fine cell takes the label of its coarse key.
\<close>

definition tree_components :: "nat \<Rightarrow> args \<Rightarrow> MapObj \<Rightarrow> error + (XY_Coord, int) dict" where
  "tree_components d a m =
     (case fold_err (key_scale_step a m) [] (map fst (density m)) of
        Inl e \<Rightarrow> Inl e
      | Inr key_scale_record \<Rightarrow>
          (case connected_components d
                  (zip (map fst key_scale_record) (map int [0..<length key_scale_record])) of
             Inl e \<Rightarrow> Inl e
           | Inr labels \<Rightarrow> fold_err (copy_labels labels) [] key_scale_record))"

section \<open>Height field\<close>

text \<open>The body of the loop of \<^verbatim>\<open>update_spatial\<close>, for one point of the file.\<close>

definition update_spatial_step :: "args \<Rightarrow> MapObj \<Rightarrow> point \<Rightarrow> error + MapObj" where
  "update_spatial_step a m p =
     (case coords a p of
        Inl e \<Rightarrow> Inl e
      | Inr idx \<Rightarrow>
          (case map_of (density m) idx of
             None \<Rightarrow>
               Inr (m\<lparr>density := AList.update idx 1 (density m),
                      canopy := AList.update idx (p_z p) (canopy m),
                      ground := AList.update idx (p_z p) (ground m),
                      filtered_density := AList.update idx 1 (filtered_density m)\<rparr>)
           | Some n \<Rightarrow>
               (case getitem (ground m) idx of
                  Inl e \<Rightarrow> Inl e
                | Inr g \<Rightarrow>
                    if g > p_z p then
                      Inr (m\<lparr>density := AList.update idx (n + 1) (density m),
                             ground := AList.update idx (p_z p) (ground m)\<rparr>)
                    else
                      (case getitem (canopy m) idx of
                         Inl e \<Rightarrow> Inl e
                       | Inr c \<Rightarrow>
                           if c < p_z p then
                             Inr (m\<lparr>density := AList.update idx (n + 1) (density m),
                                    canopy := AList.update idx (p_z p) (canopy m)\<rparr>)
                           else Inr (m\<lparr>density := AList.update idx (n + 1) (density m)\<rparr>)))))"

text \<open>The loop of \<^verbatim>\<open>update_spatial\<close> alone: the file is read into the four maps.\<close>

definition read_spatial :: "args \<Rightarrow> MapObj \<Rightarrow> error + MapObj" where
  "read_spatial a m = fold_err (update_spatial_step a) m (file_points m)"

text \<open>\<^verbatim>\<open>update_spatial()\<close>: the loop, the smoothing of the ground, and the segmentation.\<close>

definition update_spatial :: "nat \<Rightarrow> args \<Rightarrow> MapObj \<Rightarrow> error + MapObj" where
  "update_spatial d a m =
     (case read_spatial a m of
        Inl e \<Rightarrow> Inl e
      | Inr m1 \<Rightarrow>
          (case smooth_ground a (ground m1) of
             Inl e \<Rightarrow> Inl e
           | Inr g \<Rightarrow>
               (case tree_components d a (m1\<lparr>ground := g\<rparr>) of
                  Inl e \<Rightarrow> Inl e
                | Inr t \<Rightarrow> Inr (m1\<lparr>ground := g, trees := t\<rparr>))))"

section \<open>Stream filters\<close>

text \<open>\<^verbatim>\<open>is_ground(point)\<close> and \<^verbatim>\<open>is_lowest(point)\<close> read the ground height of the point's cell.\<close>

definition is_ground :: "args \<Rightarrow> MapObj \<Rightarrow> point \<Rightarrow> error + bool" where
  "is_ground a m p =
     (case coords a p of
        Inl e \<Rightarrow> Inl e
      | Inr idx \<Rightarrow>
          (case getitem (ground m) idx of
             Inl e \<Rightarrow> Inl e
           | Inr g \<Rightarrow> Inr (p_z p - g < grounddepth a)))"

definition is_lowest :: "args \<Rightarrow> MapObj \<Rightarrow> point \<Rightarrow> error + bool" where
  "is_lowest a m p =
     (case coords a p of
        Inl e \<Rightarrow> Inl e
      | Inr idx \<Rightarrow>
          (case getitem (ground m) idx of
             Inl e \<Rightarrow> Inl e
           | Inr g \<Rightarrow> Inr (p_z p = g)))"

text \<open>
  \<^verbatim>\<open>canopy and not self.is_ground(point) or lowest and self.is_lowest(point)\<close>, with
  Python's evaluation order: \<^verbatim>\<open>is_lowest\<close> is only asked where the first half is false.
\<close>

definition keep_point :: "args \<Rightarrow> MapObj \<Rightarrow> bool \<Rightarrow> bool \<Rightarrow> point \<Rightarrow> error + bool" where
  "keep_point a m lowest canopy_only p =
     (if canopy_only then
        (case is_ground a m p of
           Inl e \<Rightarrow> Inl e
         | Inr g \<Rightarrow>
             if g then (if lowest then is_lowest a m p else Inr False) else Inr True)
      else if lowest then is_lowest a m p
      else Inr False)"

text \<open>The generator \<^verbatim>\<open>newpoints\<close> of \<^verbatim>\<open>save_sparse_cloud\<close>, as the list it yields.\<close>

fun newpoints :: "args \<Rightarrow> MapObj \<Rightarrow> bool \<Rightarrow> bool \<Rightarrow> point list \<Rightarrow> error + point list" where
  "newpoints a m lowest canopy_only [] = Inr []"
| "newpoints a m lowest canopy_only (p # ps) =
     (case keep_point a m lowest canopy_only p of
        Inl e \<Rightarrow> Inl e
      | Inr k \<Rightarrow>
          (case newpoints a m lowest canopy_only ps of
             Inl e \<Rightarrow> Inl e
           | Inr rest \<Rightarrow> Inr (if k then p # rest else rest)))"

text \<open>
  \<^verbatim>\<open>save_sparse_cloud\<close> writes the kept points to a new file; with both flags set the
  map reads that file from then on. The result is the map and the points written.
\<close>

definition save_sparse_cloud :: "args \<Rightarrow> MapObj \<Rightarrow> bool \<Rightarrow> bool \<Rightarrow> error + (MapObj \<times> point list)" where
  "save_sparse_cloud a m lowest canopy_only =
     (case newpoints a m lowest canopy_only (file_points m) of
        Inl e \<Rightarrow> Inl e
      | Inr written \<Rightarrow>
          Inr (if lowest \<and> canopy_only then m\<lparr>file_points := written\<rparr> else m, written))"

section \<open>Colour accumulation\<close>

text \<open>\<^verbatim>\<open>self.colours[idx][k] += v\<close> for one attribute of the point.\<close>

definition add_colour :: "(string, real) dict \<Rightarrow> string \<times> real \<Rightarrow> error + (string, real) dict" where
  "add_colour totals kv =
     (case getitem totals (fst kv) of
        Inl e \<Rightarrow> Inl e
      | Inr t \<Rightarrow> Inr (AList.update (fst kv) (t + snd kv) totals))"

text \<open>The body of the loop of \<^verbatim>\<open>update_colours\<close>, for one point of the file.\<close>

definition update_colours_step :: "args \<Rightarrow> MapObj \<Rightarrow> point \<Rightarrow> error + MapObj" where
  "update_colours_step a m p =
     (case is_ground a m p of
        Inl e \<Rightarrow> Inl e
      | Inr g \<Rightarrow>
          if g then Inr m
          else
            (case coords a p of
               Inl e \<Rightarrow> Inl e
             | Inr idx \<Rightarrow>
                 (case getitem (filtered_density m) idx of
                    Inl e \<Rightarrow> Inl e
                  | Inr n \<Rightarrow>
                      (case map_of (colours m) idx of
                         None \<Rightarrow>
                           Inr (m\<lparr>filtered_density := AList.update idx (n + 1) (filtered_density m),
                                  colours := AList.update idx (p_cols p) (colours m)\<rparr>)
                       | Some totals \<Rightarrow>
                           (case fold_err add_colour totals (p_cols p) of
                              Inl e \<Rightarrow> Inl e
                            | Inr totals' \<Rightarrow>
                                Inr (m\<lparr>filtered_density := AList.update idx (n + 1) (filtered_density m),
                                       colours := AList.update idx totals' (colours m)\<rparr>))))))"

text \<open>\<^verbatim>\<open>update_colours()\<close>: the second pass over the points of the file.\<close>

definition update_colours :: "args \<Rightarrow> MapObj \<Rightarrow> error + MapObj" where
  "update_colours a m = fold_err (update_colours_step a) m (file_points m)"

section \<open>Tree aggregator\<close>

text \<open>\<^verbatim>\<open>sum(self.ground[k] for k in keys)\<close>.\<close>

definition sum_ground :: "MapObj \<Rightarrow> XY_Coord list \<Rightarrow> error + real" where
  "sum_ground m keys =
     fold_err (\<lambda>s k. case getitem (ground m) k of Inl e \<Rightarrow> Inl e | Inr g \<Rightarrow> Inr (s + g)) 0 keys"

text \<open>\<^verbatim>\<open>out[colour] = total / self.filtered_density[k]\<close> for one colour of the cell \<open>k\<close>.\<close>

definition set_colour :: "MapObj \<Rightarrow> XY_Coord \<Rightarrow> tree \<Rightarrow> string \<times> real \<Rightarrow> error + tree" where
  "set_colour m k out ct =
     (case getitem (filtered_density m) k of
        Inl e \<Rightarrow> Inl e
      | Inr n \<Rightarrow>
          if n = 0 then Inl ZeroDivisionError
          else Inr (out\<lparr>colour_means := AList.update (fst ct) (snd ct / real_of_int n) (colour_means out)\<rparr>))"

text \<open>The body of the loop \<^verbatim>\<open>for k in keys\<close> of \<^verbatim>\<open>tree_data\<close>.\<close>

definition tree_data_step :: "MapObj \<Rightarrow> tree \<Rightarrow> XY_Coord \<Rightarrow> error + tree" where
  "tree_data_step m out k =
     (case getitem (canopy m) k of
        Inl e \<Rightarrow> Inl e
      | Inr c \<Rightarrow>
          (case getitem (ground m) k of
             Inl e \<Rightarrow> Inl e
           | Inr g \<Rightarrow>
               (case getitem (density m) k of
                  Inl e \<Rightarrow> Inl e
                | Inr n \<Rightarrow>
                    (case getitem (colours m) k of
                       Inl e \<Rightarrow> Inl e
                     | Inr totals \<Rightarrow>
                         fold_err (set_colour m k)
                           (out\<lparr>height := max (height out) (c - g),
                                point_count := point_count out + n\<rparr>)
                           totals))))"

text \<open>
  \<^verbatim>\<open>tree_data(keys)\<close>. The projection \<^verbatim>\<open>utm.to_latlon\<close> is a parameter; the zone and the
  hemisphere of \<^verbatim>\<open>self.utm\<close> are the ones of \<^verbatim>\<open>args\<close>. Dividing by \<^verbatim>\<open>len(keys)\<close> raises
  ZeroDivisionError for an empty set of keys.
\<close>

definition tree_data :: "(real \<Rightarrow> real \<Rightarrow> int \<Rightarrow> bool \<Rightarrow> real \<times> real) \<Rightarrow> args \<Rightarrow> MapObj \<Rightarrow> XY_Coord list \<Rightarrow> error + tree" where
  "tree_data to_latlon a m keys =
     (if keys = [] then Inl ZeroDivisionError
      else
        (let tx = utm_x m + cellsize a * real_of_int (sum_list (map fst keys)) / real (length keys);
             ty = utm_y m + cellsize a * real_of_int (sum_list (map snd keys)) / real (length keys);
             ll = to_latlon tx ty (utmzone a) (north a)
         in case sum_ground m keys of
              Inl e \<Rightarrow> Inl e
            | Inr ground_sum \<Rightarrow>
                fold_err (tree_data_step m)
                  \<lparr>latitude = fst ll, longitude = snd ll, UTM_X = tx, UTM_Y = ty,
                   UTM_zone = utmzone a, height = 0,
                   area = real (length keys) * (cellsize a)\<^sup>2,
                   base_altitude = ground_sum / real (length keys),
                   point_count = 0, colour_means = []\<rparr>
                  keys))"

text \<open>\<^verbatim>\<open>keys[v]\<close> of \<^verbatim>\<open>all_trees\<close>: the cells that carry the label \<open>v\<close>.\<close>

definition keys_of :: "MapObj \<Rightarrow> int \<Rightarrow> XY_Coord list" where
  "keys_of m v = map fst (filter (\<lambda>kv. snd kv = v) (trees m))"

text \<open>The loop \<^verbatim>\<open>for v in ids\<close> of \<^verbatim>\<open>all_trees\<close>; the result lists the rows it yields.\<close>

fun yield_trees :: "(real \<Rightarrow> real \<Rightarrow> int \<Rightarrow> bool \<Rightarrow> real \<times> real) \<Rightarrow> args \<Rightarrow> MapObj \<Rightarrow> int list \<Rightarrow> error + tree list" where
  "yield_trees to_latlon a m [] = Inr []"
| "yield_trees to_latlon a m (v # ids) =
     (case tree_data to_latlon a m (keys_of m v) of
        Inl e \<Rightarrow> Inl e
      | Inr data \<Rightarrow>
          (case yield_trees to_latlon a m ids of
             Inl e \<Rightarrow> Inl e
           | Inr rows \<Rightarrow> Inr (if height data > 1.5 * slicedepth a then data # rows else rows)))"

text \<open>
  \<^verbatim>\<open>all_trees()\<close>: \<^verbatim>\<open>ids\<close> lists every label once. No label is \<^verbatim>\<open>None\<close>, so every
  cell of \<^verbatim>\<open>self.trees\<close> is added to the set of its label.
\<close>

definition all_trees :: "(real \<Rightarrow> real \<Rightarrow> int \<Rightarrow> bool \<Rightarrow> real \<times> real) \<Rightarrow> args \<Rightarrow> MapObj \<Rightarrow> error + tree list" where
  "all_trees to_latlon a m = yield_trees to_latlon a m (remdups (map snd (trees m)))"

section \<open>The two passes over a file\<close>

text \<open>A \<^verbatim>\<open>MapObj\<close> before \<^verbatim>\<open>__init__\<close> reads the file: the points and the UTM offset.\<close>

definition new_map :: "point list \<Rightarrow> real \<Rightarrow> real \<Rightarrow> MapObj" where
  "new_map ps ox oy =
     \<lparr>file_points = ps, canopy = [], density = [], filtered_density = [], ground = [],
      colours = [], trees = [], utm_x = ox, utm_y = oy\<rparr>"

text \<open>\<^verbatim>\<open>MapObj(input_file, colours=...)\<close>.\<close>

definition init_map :: "nat \<Rightarrow> args \<Rightarrow> point list \<Rightarrow> real \<Rightarrow> real \<Rightarrow> bool \<Rightarrow> error + MapObj" where
  "init_map d a ps ox oy with_colours =
     (case update_spatial d a (new_map ps ox oy) of
        Inl e \<Rightarrow> Inl e
      | Inr m \<Rightarrow> if with_colours then update_colours a m else Inr m)"

text \<open>
  The file handling of \<^verbatim>\<open>main_processing\<close>, up to "File IO complete". Where the
  sparse file exists already (\<open>sparse = Some qs\<close>, \<open>qs\<close> its points) the map is built
  from it, colours included. Otherwise the map is built from the input file without
  colours, the sparse cloud is written, and the colours are read from the sparse cloud.
\<close>

definition load_map :: "nat \<Rightarrow> args \<Rightarrow> point list \<Rightarrow> point list option \<Rightarrow> real \<Rightarrow> real \<Rightarrow> error + MapObj" where
  "load_map d a ps sparse ox oy =
     (case sparse of
        Some qs \<Rightarrow> init_map d a qs ox oy True
      | None \<Rightarrow>
          (case init_map d a ps ox oy False of
             Inl e \<Rightarrow> Inl e
           | Inr m \<Rightarrow>
               (case save_sparse_cloud a m True True of
                  Inl e \<Rightarrow> Inl e
                | Inr (m', written) \<Rightarrow> update_colours a m')))"

text \<open>
  \<^verbatim>\<open>main_processing\<close>: \<^verbatim>\<open>stream_analysis\<close> writes one row for each tree that
  \<^verbatim>\<open>all_trees\<close> yields.
\<close>

definition main_processing :: "(real \<Rightarrow> real \<Rightarrow> int \<Rightarrow> bool \<Rightarrow> real \<times> real) \<Rightarrow> nat \<Rightarrow> args \<Rightarrow> point list \<Rightarrow> point list option \<Rightarrow> real \<Rightarrow> real \<Rightarrow> error + tree list" where
  "main_processing to_latlon d a ps sparse ox oy =
     (case load_map d a ps sparse ox oy of
        Inl e \<Rightarrow> Inl e
      | Inr m \<Rightarrow> all_trees to_latlon a m)"

section \<open>Notions used in the statements\<close>

text \<open>The neighbours of a cell that the ground map holds, in the order of \<^verbatim>\<open>neighbors\<close>.\<close>

definition present_neighbors :: "(XY_Coord, real) dict \<Rightarrow> XY_Coord \<Rightarrow> XY_Coord list" where
  "present_neighbors g k = filter (\<lambda>n. map_of g n \<noteq> None) (neighbors k)"

text \<open>
  The neighbours of a cell whose ground height differs from the ground height of the cell
  by more than twice the cell size.
\<close>

definition steep_neighbors :: "args \<Rightarrow> (XY_Coord, real) dict \<Rightarrow> XY_Coord \<Rightarrow> XY_Coord list" where
  "steep_neighbors a g k =
     filter (\<lambda>n. case map_of g n of None \<Rightarrow> False
                 | Some h \<Rightarrow> (case map_of g k of None \<Rightarrow> False | Some hk \<Rightarrow> \<bar>hk - h\<bar> > 2 * cellsize a))
       (neighbors k)"

text \<open>The test that \<^verbatim>\<open>detect_issues\<close> applies to a cell of the ground map.\<close>

definition flagged :: "args \<Rightarrow> (XY_Coord, real) dict \<Rightarrow> XY_Coord \<Rightarrow> bool" where
  "flagged a g k =
     (6 \<le> length (heights_of g (neighbors k)) \<and>
      (case map_of g k of None \<Rightarrow> False | Some h \<Rightarrow> 3 \<le> probs a h (heights_of g (neighbors k))))"

text \<open>The points of a stream that fall into a cell.\<close>

definition cell_points :: "args \<Rightarrow> point list \<Rightarrow> XY_Coord \<Rightarrow> point list" where
  "cell_points a ps k = filter (\<lambda>p. coords a p = Inr k) ps"

text \<open>
  The maps of \<open>m\<close> summarise the stream \<open>qs\<close>: a cell is a key of the four maps if and
  only if the stream has a point in it, its density is the number of its points, its
  ground and canopy are the least and the greatest height of its points, and its filtered
  density is 1.
\<close>

definition summarises :: "args \<Rightarrow> point list \<Rightarrow> MapObj \<Rightarrow> bool" where
  "summarises a qs m \<longleftrightarrow>
     (\<forall>k. map_of (density m) k =
            (if cell_points a qs k = [] then None else Some (int (length (cell_points a qs k)))) \<and>
          map_of (ground m) k =
            (if cell_points a qs k = [] then None else Some (Min (p_z ` set (cell_points a qs k)))) \<and>
          map_of (canopy m) k =
            (if cell_points a qs k = [] then None else Some (Max (p_z ` set (cell_points a qs k)))) \<and>
          map_of (filtered_density m) k =
            (if cell_points a qs k = [] then None else Some 1))"

text \<open>A cell is eligible for segmentation: its canopy is more than the slice depth above its ground.\<close>

definition eligible :: "args \<Rightarrow> MapObj \<Rightarrow> XY_Coord \<Rightarrow> bool" where
  "eligible a m k =
     (case map_of (canopy m) k of
        None \<Rightarrow> False
      | Some c \<Rightarrow> (case map_of (ground m) k of None \<Rightarrow> False | Some g \<Rightarrow> c - g > slicedepth a))"

text \<open>The fine cells that a \<^verbatim>\<open>key_scale_record\<close> holds under its coarse keys.\<close>

definition cells_of :: "('k, 'c list) dict \<Rightarrow> 'c set" where
  "cells_of key_scale_record = {s. \<exists>ck v. map_of key_scale_record ck = Some v \<and> s \<in> set v}"

text \<open>
  A point is not ground, and a point is kept in the sparse cloud (it is not ground, or it
  is the lowest of its cell), for the ground map \<open>g\<close>.
\<close>

definition nonground :: "args \<Rightarrow> (XY_Coord, real) dict \<Rightarrow> point \<Rightarrow> bool" where
  "nonground a g p =
     (case coords a p of
        Inl e \<Rightarrow> False
      | Inr k \<Rightarrow> (case map_of g k of None \<Rightarrow> False | Some h \<Rightarrow> grounddepth a \<le> p_z p - h))"

definition kept :: "args \<Rightarrow> (XY_Coord, real) dict \<Rightarrow> point \<Rightarrow> bool" where
  "kept a g p =
     (case coords a p of
        Inl e \<Rightarrow> False
      | Inr k \<Rightarrow> (case map_of g k of None \<Rightarrow> False
                  | Some h \<Rightarrow> grounddepth a \<le> p_z p - h \<or> p_z p = h))"

text \<open>
  The map \<open>m\<close> is what the second pass makes of the map \<open>m0\<close> and the stream \<open>qs\<close>: the
  heights, the densities and the labels are those of \<open>m0\<close>, the filtered density of a cell
  has grown by the number of its points that are not ground, a cell has colour totals if
  and only if it has such a point, and the totals have the attribute names \<open>names\<close>.
\<close>

definition coloured :: "args \<Rightarrow> string list \<Rightarrow> MapObj \<Rightarrow> point list \<Rightarrow> MapObj \<Rightarrow> bool" where
  "coloured a names m0 qs m \<longleftrightarrow>
     ground m = ground m0 \<and> canopy m = canopy m0 \<and> density m = density m0 \<and>
     trees m = trees m0 \<and> utm_x m = utm_x m0 \<and> utm_y m = utm_y m0 \<and>
     file_points m = file_points m0 \<and>
     (\<forall>k. map_of (filtered_density m) k =
            map_option (\<lambda>n. n + int (length (filter (nonground a (ground m0)) (cell_points a qs k))))
              (map_of (filtered_density m0) k)) \<and>
     (\<forall>k. map_of (colours m) k \<noteq> None \<longleftrightarrow>
            filter (nonground a (ground m0)) (cell_points a qs k) \<noteq> []) \<and>
     (\<forall>k totals. map_of (colours m) k = Some totals \<longrightarrow> map fst totals = names)"

text \<open>A cell has every entry that \<^verbatim>\<open>tree_data\<close> reads, and its filtered density is not 0.\<close>

definition complete_cell :: "MapObj \<Rightarrow> XY_Coord \<Rightarrow> bool" where
  "complete_cell m k \<longleftrightarrow>
     map_of (canopy m) k \<noteq> None \<and> map_of (ground m) k \<noteq> None \<and> map_of (density m) k \<noteq> None \<and>
     map_of (colours m) k \<noteq> None \<and>
     (case map_of (filtered_density m) k of None \<Rightarrow> False | Some fd \<Rightarrow> fd \<noteq> 0)"

section \<open>Example inputs\<close>

text \<open>The configuration of the worked example, and three variations of it.\<close>

definition example_args :: args where
  "example_args =
     \<lparr>cellsize = 1, joinedcells = 3, slicedepth = 0.5, grounddepth = 0.2, utmzone = 55, north = False\<rparr>"

definition fine_args :: args where
  "fine_args = example_args\<lparr>joinedcells := 1\<rparr>"

definition boundary_args :: args where
  "boundary_args = example_args\<lparr>slicedepth := 2\<rparr>"

definition low_slice_args :: args where
  "low_slice_args = example_args\<lparr>slicedepth := 0.1, grounddepth := 0.5\<rparr>"

definition no_projection :: "real \<Rightarrow> real \<Rightarrow> int \<Rightarrow> bool \<Rightarrow> real \<times> real" where
  "no_projection tx ty zone northern = (0, 0)"

text \<open>A point without colours, and a point with the attribute red.\<close>

definition pt :: "real \<Rightarrow> real \<Rightarrow> real \<Rightarrow> point" where
  "pt a b c = \<lparr>p_x = a, p_y = b, p_z = c, p_cols = []\<rparr>"

definition red_pt :: "real \<Rightarrow> real \<Rightarrow> real \<Rightarrow> real \<Rightarrow> point" where
  "red_pt a b c r = \<lparr>p_x = a, p_y = b, p_z = c, p_cols = [(''red'', r)]\<rparr>"

text \<open>
  The four points of the worked example, the map after they are read, and the map when
  both passes are done.
\<close>

definition example_points :: "point list" where
  "example_points = [pt 0 0 0, pt 0 0 3, pt 1 0 0, pt 1 0 3]"

definition example_map :: "real \<Rightarrow> real \<Rightarrow> MapObj" where
  "example_map ox oy =
     \<lparr>file_points = example_points,
      canopy = [((0, 0), 3), ((1, 0), 3)],
      density = [((0, 0), 2), ((1, 0), 2)],
      filtered_density = [((0, 0), 1), ((1, 0), 1)],
      ground = [((0, 0), 0), ((1, 0), 0)],
      colours = [],
      trees = [],
      utm_x = ox, utm_y = oy\<rparr>"

definition example_loaded :: MapObj where
  "example_loaded =
     (example_map 0 0)\<lparr>trees := [((1, 0), 0), ((0, 0), 0)],
                       filtered_density := [((0, 0), 2), ((1, 0), 2)],
                       colours := [((0, 0), []), ((1, 0), [])]\<rparr>"

text \<open>The same four points with an amount of red each, and the map when both passes are done.\<close>

definition red_points :: "point list" where
  "red_points = [red_pt 0 0 0 0, red_pt 0 0 3 10, red_pt 1 0 0 0, red_pt 1 0 3 30]"

definition red_map :: "real \<Rightarrow> real \<Rightarrow> MapObj" where
  "red_map ox oy =
     \<lparr>file_points = red_points,
      canopy = [((0, 0), 3), ((1, 0), 3)],
      density = [((0, 0), 2), ((1, 0), 2)],
      filtered_density = [((0, 0), 2), ((1, 0), 2)],
      ground = [((0, 0), 0), ((1, 0), 0)],
      colours = [((0, 0), [(''red'', 10)]), ((1, 0), [(''red'', 30)])],
      trees = [((1, 0), 0), ((0, 0), 0)],
      utm_x = ox, utm_y = oy\<rparr>"

text \<open>Two points in one cell, 0.3 apart, and the map after the first pass.\<close>

definition low_points :: "point list" where
  "low_points = [pt 0 0 0, pt 0 0 0.3]"

definition low_map :: "real \<Rightarrow> real \<Rightarrow> MapObj" where
  "low_map ox oy =
     \<lparr>file_points = low_points, canopy = [((0, 0), 0.3)], density = [((0, 0), 2)],
      filtered_density = [((0, 0), 1)], ground = [((0, 0), 0)], colours = [],
      trees = [((0, 0), 0)], utm_x = ox, utm_y = oy\<rparr>"

text \<open>Two points in one cell, 0.1 apart, and a map of one cell of ground height 0.\<close>

definition flat_points :: "point list" where
  "flat_points = [pt 0 0 0, pt 0 0 (1/10)]"

definition flat_map :: "point list \<Rightarrow> real \<Rightarrow> int \<Rightarrow> MapObj" where
  "flat_map ps c n =
     \<lparr>file_points = ps, canopy = [((0, 0), c)], density = [((0, 0), n)],
      filtered_density = [((0, 0), 1)], ground = [((0, 0), 0)], colours = [], trees = [],
      utm_x = 0, utm_y = 0\<rparr>"

text \<open>
  Ground maps around the cell \<open>(0, 0)\<close>: six neighbours of different heights, eight
  neighbours of one height, and two level cells.
\<close>

definition six_ring :: "(XY_Coord, real) dict" where
  "six_ring =
     [((0, 0), 0), ((-1, -1), 10), ((-1, 0), 11), ((-1, 1), 12), ((0, -1), 13), ((0, 1), 14),
      ((1, -1), 15)]"

definition flat_ring :: "(XY_Coord, real) dict" where
  "flat_ring =
     [((0, 0), 0), ((-1, -1), 10), ((-1, 0), 10), ((-1, 1), 10), ((0, -1), 10), ((0, 1), 10),
      ((1, -1), 10), ((1, 0), 10), ((1, 1), 10)]"

definition two_cells :: "(XY_Coord, real) dict" where
  "two_cells = [((0, 0), 0), ((1, 0), 0)]"

text \<open>
  Nine cells with one point each: the cell \<open>(0, 0)\<close> at height \<open>c\<close> and its eight
  neighbours at the heights \<open>n\<close>, \<open>n + 0.5\<close>, ..., \<open>n + 3.5\<close>; the maps after these points
  are read; and the map read from the eight outer points alone.
\<close>

definition ring_cloud :: "real \<Rightarrow> real \<Rightarrow> point list" where
  "ring_cloud c n =
     [pt 0 0 c, pt (-1) (-1) n, pt (-1) 0 (n + 1/2), pt (-1) 1 (n + 1), pt 0 (-1) (n + 3/2),
      pt 0 1 (n + 2), pt 1 (-1) (n + 5/2), pt 1 0 (n + 3), pt 1 1 (n + 7/2)]"

definition ring_ground :: "real \<Rightarrow> real \<Rightarrow> (XY_Coord, real) dict" where
  "ring_ground c n =
     [((0, 0), c), ((-1, -1), n), ((-1, 0), n + 1/2), ((-1, 1), n + 1), ((0, -1), n + 3/2),
      ((0, 1), n + 2), ((1, -1), n + 5/2), ((1, 0), n + 3), ((1, 1), n + 7/2)]"

definition ring_density :: "(XY_Coord, int) dict" where
  "ring_density =
     [((0, 0), 1), ((-1, -1), 1), ((-1, 0), 1), ((-1, 1), 1), ((0, -1), 1),
      ((0, 1), 1), ((1, -1), 1), ((1, 0), 1), ((1, 1), 1)]"

definition ring_map :: "real \<Rightarrow> real \<Rightarrow> MapObj" where
  "ring_map c n =
     \<lparr>file_points = ring_cloud c n, canopy = ring_ground c n, density = ring_density,
      filtered_density = ring_density, ground = ring_ground c n, colours = [], trees = [],
      utm_x = 0, utm_y = 0\<rparr>"

definition hollow_ring_map :: MapObj where
  "hollow_ring_map =
     \<lparr>file_points = tl (ring_cloud 0 100), canopy = tl (ring_ground 0 100),
      density = tl ring_density, filtered_density = tl ring_density,
      ground = tl (ring_ground 0 100), colours = [], trees = [], utm_x = 0, utm_y = 0\<rparr>"

section \<open>The ground smoother: flagged cells and stable maps\<close>

text \<open>
  The neighbours of a cell are eight different cells. For candidates among the cells of
  the ground map, \<^verbatim>\<open>detect_issues\<close> never raises and returns the candidates that pass the
  test \<open>flagged\<close>.
\<close>

lemma neighbors_eq:
  "neighbors (i, j) =
     [(i - 1, j - 1), (i - 1, j), (i - 1, j + 1), (i, j - 1), (i, j + 1),
      (i + 1, j - 1), (i + 1, j), (i + 1, j + 1)]"
  by (simp add: neighbors_def)

lemma distinct_neighbors: "distinct (neighbors k)"
  by (cases k) (simp add: neighbors_eq)

lemma detect_issues_filter:
  "set prior \<subseteq> fst ` set g \<Longrightarrow> detect_issues a g prior = Inr (filter (flagged a g) prior)"
proof (induction prior)
  case Nil
  then show ?case by simp
next
  case (Cons k prior)
  from Cons.prems have "k \<in> fst ` set g" by simp
  then obtain h where h: "map_of g k = Some h"
    by (metis domD dom_map_of_conv_image_fst)
  from Cons show ?case
    by (simp add: Let_def getitem_def h flagged_def)
qed

lemma heights_of_distinct:
  assumes "distinct (map (map_of g) (present_neighbors g k))"
  shows "heights_of g (neighbors k) = map (the \<circ> map_of g) (present_neighbors g k)"
proof -
  have "inj_on the (set (map (map_of g) (present_neighbors g k)))"
    by (auto simp: inj_on_def present_neighbors_def)
  with assms have "distinct (map the (map (map_of g) (present_neighbors g k)))"
    by (simp only: distinct_map simp_thms)
  then show ?thesis
    by (simp add: heights_of_def List.map_filter_def present_neighbors_def comp_def)
qed

lemma steep_neighbors_probs:
  assumes "map_of g k = Some hk"
  shows "length (steep_neighbors a g k) =
         probs a hk (map (the \<circ> map_of g) (present_neighbors g k))"
proof -
  have "length (filter (\<lambda>n. case map_of g n of None \<Rightarrow> False
                  | Some h \<Rightarrow> (case map_of g k of None \<Rightarrow> False | Some hk \<Rightarrow> \<bar>hk - h\<bar> > 2 * cellsize a)) ns)
        = length (filter (\<lambda>n. \<bar>hk - n\<bar> > 2 * cellsize a)
            (map (the \<circ> map_of g) (filter (\<lambda>n. map_of g n \<noteq> None) ns)))" for ns
    by (induction ns) (auto simp: assms split: option.splits)
  then show ?thesis
    by (simp only: steep_neighbors_def probs_def present_neighbors_def)
qed

lemma length_heights_of_le: "length (heights_of g (neighbors k)) \<le> length (present_neighbors g k)"
proof -
  have "length (remdups (List.map_filter (map_of g) (neighbors k)))
        \<le> length (List.map_filter (map_of g) (neighbors k))"
    by (rule length_remdups_leq)
  then show ?thesis
    by (simp add: heights_of_def present_neighbors_def List.map_filter_def)
qed

text \<open>
  Claim C1, as the code has it. For candidates that are cells of the ground map,
  \<^verbatim>\<open>detect_issues\<close> returns a set of candidates. A flagged cell has at least 6 of its 8
  neighbours in the ground map, so a cell with fewer than 6 present neighbours is never
  flagged. For a candidate whose present neighbours have pairwise different ground
  heights, the cell is flagged if and only if at least 6 of its neighbours are present
  and at least 3 of them have a ground height that differs from the cell's by more than
  twice the cell size.
\<close>

theorem detect_issues_flags:
  assumes "set prior \<subseteq> fst ` set g"
  shows "\<exists>problematic. detect_issues a g prior = Inr problematic \<and>
           set problematic \<subseteq> set prior \<and>
           (\<forall>k \<in> set problematic. 6 \<le> length (present_neighbors g k)) \<and>
           (\<forall>k \<in> set prior. distinct (map (map_of g) (present_neighbors g k)) \<longrightarrow>
              (k \<in> set problematic \<longleftrightarrow>
                 6 \<le> length (present_neighbors g k) \<and> 3 \<le> length (steep_neighbors a g k)))"
proof -
  have eq: "detect_issues a g prior = Inr (filter (flagged a g) prior)"
    using assms by (rule detect_issues_filter)
  have few: "6 \<le> length (present_neighbors g k)" if "flagged a g k" for k
    using that length_heights_of_le [of g k] by (simp add: flagged_def)
  have iff: "flagged a g k \<longleftrightarrow>
               6 \<le> length (present_neighbors g k) \<and> 3 \<le> length (steep_neighbors a g k)"
    if k: "k \<in> set prior" and d: "distinct (map (map_of g) (present_neighbors g k))" for k
  proof -
    from k assms have "k \<in> fst ` set g" by auto
    then obtain hk where hk: "map_of g k = Some hk"
      by (metis domD dom_map_of_conv_image_fst)
    show ?thesis
      by (simp add: flagged_def hk heights_of_distinct [OF d] steep_neighbors_probs [OF hk])
  qed
  show ?thesis
    using eq few iff by auto
qed

lemma smooth_rounds_Nil: "smooth_rounds r a g [] = Inr g"
  by (induction r arbitrary: g) simp_all

lemma smooth_rounds_stable:
  "detect_issues a g prior = Inr [] \<Longrightarrow> smooth_rounds r a g prior = Inr g"
  by (cases r) (simp_all add: smooth_rounds_Nil)

lemma smooth_ground_no_issues:
  "detect_issues a g (map fst g) = Inr [] \<Longrightarrow> smooth_ground a g = Inr g"
  unfolding smooth_ground_def by (rule smooth_rounds_stable)

text \<open>
  Claim C9. On a ground map for which \<^verbatim>\<open>detect_issues\<close>, applied to all its cells,
  returns the empty set, \<^verbatim>\<open>smooth_ground\<close> returns the map as it was: all 100 rounds
  leave every ground height unchanged.
\<close>

theorem smooth_ground_stable:
  assumes "detect_issues a g (map fst g) = Inr []"
  shows "smooth_ground a g = Inr g"
  unfolding smooth_ground_def using assms by (rule smooth_rounds_stable)

lemma six_ring_flagged: "detect_issues example_args six_ring [(0, 0)] = Inr [(0, 0)]"
  by (simp add: six_ring_def example_args_def neighbors_eq heights_of_def probs_def getitem_def)

lemma six_ring_present:
  "present_neighbors six_ring (0, 0) = [(-1, -1), (-1, 0), (-1, 1), (0, -1), (0, 1), (1, -1)]"
  by (simp add: six_ring_def present_neighbors_def neighbors_eq)

lemma six_ring_count: "length (present_neighbors six_ring (0, 0)) = 6"
  by (simp add: six_ring_present)

lemma flat_ring_not_flagged: "detect_issues example_args flat_ring [(0, 0)] = Inr []"
  by (simp add: flat_ring_def example_args_def neighbors_eq heights_of_def probs_def getitem_def)

lemma flat_ring_present: "length (present_neighbors flat_ring (0, 0)) = 8"
  by (simp add: flat_ring_def present_neighbors_def neighbors_eq)

lemma flat_ring_steep: "length (steep_neighbors example_args flat_ring (0, 0)) = 8"
  by (simp add: flat_ring_def steep_neighbors_def example_args_def neighbors_eq)

text \<open>
  Claim C1 as stated fails in both directions. With cell size 1, the cell \<open>(0, 0)\<close> of
  \<open>six_ring\<close> has only 6 of its neighbours in the ground map and is flagged. The cell
  \<open>(0, 0)\<close> of \<open>flat_ring\<close> has all 8 neighbours in the ground map, each 10 above it,
  and is not flagged: the 8 neighbours share one height, and the code counts heights.
\<close>

theorem detect_issues_counterexample:
  "detect_issues example_args six_ring [(0, 0)] = Inr [(0, 0)] \<and>
   length (present_neighbors six_ring (0, 0)) = 6 \<and>
   detect_issues example_args flat_ring [(0, 0)] = Inr [] \<and>
   length (present_neighbors flat_ring (0, 0)) = 8 \<and>
   length (steep_neighbors example_args flat_ring (0, 0)) = 8"
  by (simp only: six_ring_flagged six_ring_count flat_ring_not_flagged flat_ring_present
        flat_ring_steep simp_thms)

text \<open>The theorem for claim C1 at the cell \<open>(0, 0)\<close> of \<open>six_ring\<close>.\<close>

theorem detect_issues_flags_witness:
  "set [(0, 0)] \<subseteq> fst ` set six_ring \<and>
   distinct (map (map_of six_ring) (present_neighbors six_ring (0, 0))) \<and>
   detect_issues example_args six_ring [(0, 0)] = Inr [(0, 0)] \<and>
   6 \<le> length (present_neighbors six_ring (0, 0)) \<and>
   3 \<le> length (steep_neighbors example_args six_ring (0, 0))"
proof -
  have sub: "set [(0, 0)] \<subseteq> fst ` set six_ring"
    by (simp add: six_ring_def)
  have dist: "distinct (map (map_of six_ring) (present_neighbors six_ring (0, 0)))"
    by (simp add: six_ring_present) (simp add: six_ring_def)
  from detect_issues_flags [OF sub, of example_args] dist
  have "6 \<le> length (present_neighbors six_ring (0, 0)) \<and>
        3 \<le> length (steep_neighbors example_args six_ring (0, 0))"
    by (simp del: detect_issues.simps add: six_ring_flagged)
  with sub dist show ?thesis
    by (simp only: six_ring_flagged simp_thms)
qed

text \<open>The theorem for claim C9 at a ground map of two level cells.\<close>

theorem smooth_ground_stable_witness:
  "detect_issues example_args two_cells (map fst two_cells) = Inr [] \<and>
   smooth_ground example_args two_cells = Inr two_cells"
proof -
  have stable: "detect_issues example_args two_cells (map fst two_cells) = Inr []"
    by (simp add: two_cells_def neighbors_eq heights_of_def)
  from stable smooth_ground_stable [OF stable] show ?thesis by simp
qed

section \<open>The worked example\<close>

text \<open>
  The two passes over the four points of the example, step by step.
\<close>

lemmas step_defs = update_spatial_step_def coords_def getitem_def

lemma example_read: "read_spatial example_args (new_map example_points ox oy) = Inr (example_map ox oy)"
  by (simp add: read_spatial_def new_map_def example_points_def pt_def example_args_def
        example_map_def step_defs)

lemma example_smooth: "smooth_ground example_args [((0, 0), 0), ((1, 0), 0)] = Inr [((0, 0), 0), ((1, 0), 0)]"
  by (rule smooth_ground_no_issues) (simp add: neighbors_eq heights_of_def)

lemma example_components:
  "tree_components d example_args (example_map ox oy) = Inr [((1, 0), 0), ((0, 0), 0)]"
  by (simp add: tree_components_def example_map_def example_args_def key_scale_step_def getitem_def
        cc_key_def connected_components_def expand_def neighbors_eq copy_labels_def)

lemma example_spatial:
  "update_spatial d example_args (new_map example_points ox oy)
     = Inr ((example_map ox oy)\<lparr>trees := [((1, 0), 0), ((0, 0), 0)]\<rparr>)"
  using example_components [of d ox oy]
  by (simp add: update_spatial_def example_read example_map_def example_smooth)

lemma example_sparse:
  "save_sparse_cloud example_args ((example_map ox oy)\<lparr>trees := t\<rparr>) True True
     = Inr ((example_map ox oy)\<lparr>trees := t\<rparr>, example_points)"
  by (simp add: save_sparse_cloud_def example_map_def example_points_def pt_def keep_point_def
        is_ground_def is_lowest_def coords_def getitem_def example_args_def)

lemma example_colours:
  "update_colours example_args ((example_map ox oy)\<lparr>trees := t\<rparr>)
     = Inr ((example_map ox oy)\<lparr>trees := t, filtered_density := [((0, 0), 2), ((1, 0), 2)],
                                colours := [((0, 0), []), ((1, 0), [])]\<rparr>)"
  by (simp add: update_colours_def update_colours_step_def example_map_def example_points_def pt_def
        is_ground_def coords_def getitem_def example_args_def)

lemma example_all_trees:
  "\<exists>t. all_trees to_latlon example_args
          ((example_map ox oy)\<lparr>trees := [((1, 0), 0), ((0, 0), 0)],
                                filtered_density := [((0, 0), 2), ((1, 0), 2)],
                                colours := [((0, 0), []), ((1, 0), [])]\<rparr>) = Inr [t]
       \<and> height t = 3 \<and> area t = 2 \<and> point_count t = 4"
  by (simp add: all_trees_def tree_data_def keys_of_def sum_ground_def tree_data_step_def
        example_map_def getitem_def example_args_def Let_def)

text \<open>The row does not depend on the order in which the two cells of the tree are visited.\<close>

lemma example_all_trees_swapped:
  "\<exists>t. all_trees to_latlon example_args
          ((example_map ox oy)\<lparr>trees := [((0, 0), 0), ((1, 0), 0)],
                                filtered_density := [((0, 0), 2), ((1, 0), 2)],
                                colours := [((0, 0), []), ((1, 0), [])]\<rparr>) = Inr [t]
       \<and> height t = 3 \<and> area t = 2 \<and> point_count t = 4"
  by (simp add: all_trees_def tree_data_def keys_of_def sum_ground_def tree_data_step_def
        example_map_def getitem_def example_args_def Let_def)

lemma example_load:
  "load_map d example_args example_points None ox oy =
     Inr ((example_map ox oy)\<lparr>trees := [((1, 0), 0), ((0, 0), 0)],
                                filtered_density := [((0, 0), 2), ((1, 0), 2)],
                                colours := [((0, 0), []), ((1, 0), [])]\<rparr>)"
  by (simp add: load_map_def init_map_def example_spatial example_sparse example_colours)

lemma example_load_sparse:
  "load_map d example_args other (Some example_points) ox oy =
     Inr ((example_map ox oy)\<lparr>trees := [((1, 0), 0), ((0, 0), 0)],
                                filtered_density := [((0, 0), 2), ((1, 0), 2)],
                                colours := [((0, 0), []), ((1, 0), [])]\<rparr>)"
  by (simp add: load_map_def init_map_def example_spatial example_colours)

text \<open>
  Claim C7. With \<open>cellsize = 1\<close>, \<open>slicedepth = 0.5\<close>, \<open>grounddepth = 0.2\<close> and
  \<open>joinedcells = 3\<close>, a file of the four points \<open>(0,0,0)\<close>, \<open>(0,0,3)\<close>, \<open>(1,0,0)\<close>,
  \<open>(1,0,3)\<close> yields exactly one tree, of height 3, area 2 and point count 4, whatever
  the projection, the recursion limit and the UTM offset are, on both paths of
  \<^verbatim>\<open>main_processing\<close>: from the input file, and from a sparse file of these points.
\<close>

theorem example_one_tree:
  "(\<exists>t. main_processing to_latlon d example_args example_points None ox oy = Inr [t] \<and>
        height t = 3 \<and> area t = 2 \<and> point_count t = 4) \<and>
   (\<exists>t. main_processing to_latlon d example_args other (Some example_points) ox oy = Inr [t] \<and>
        height t = 3 \<and> area t = 2 \<and> point_count t = 4)"
  using example_all_trees [of to_latlon ox oy]
  by (simp add: main_processing_def example_load example_load_sparse)
section \<open>What the first pass stores\<close>

text \<open>
  Reading a stream into an empty map gives the summary of the stream: each step of the
  loop of \<^verbatim>\<open>update_spatial\<close> extends the summary by one point.
\<close>

lemma cell_points_snoc:
  "cell_points a (qs @ [p]) k =
     (if coords a p = Inr k then cell_points a qs k @ [p] else cell_points a qs k)"
  by (simp add: cell_points_def)

lemma Min_snoc: "xs \<noteq> [] \<Longrightarrow> Min (f ` set (xs @ [x])) = min (f x) (Min (f ` set xs))"
  by simp

lemma Max_snoc: "xs \<noteq> [] \<Longrightarrow> Max (f ` set (xs @ [x])) = max (f x) (Max (f ` set xs))"
  by simp

lemma summarisesD:
  assumes "summarises a qs m"
  shows "map_of (density m) k =
            (if cell_points a qs k = [] then None else Some (int (length (cell_points a qs k))))"
    and "map_of (ground m) k =
            (if cell_points a qs k = [] then None else Some (Min (p_z ` set (cell_points a qs k))))"
    and "map_of (canopy m) k =
            (if cell_points a qs k = [] then None else Some (Max (p_z ` set (cell_points a qs k))))"
    and "map_of (filtered_density m) k = (if cell_points a qs k = [] then None else Some 1)"
  using assms unfolding summarises_def by blast+

lemma update_spatial_step_summarises:
  assumes c: "cellsize a \<noteq> 0" and s: "summarises a qs m"
  shows "\<exists>m'. update_spatial_step a m p = Inr m' \<and> summarises a (qs @ [p]) m' \<and>
              colours m' = colours m \<and> trees m' = trees m \<and> file_points m' = file_points m \<and>
              utm_x m' = utm_x m \<and> utm_y m' = utm_y m"
proof -
  obtain idx where idx: "coords a p = Inr idx"
    using c by (simp add: coords_def)
  note at = summarisesD [OF s]
  show ?thesis
  proof (cases "cell_points a qs idx = []")
    case True
    define m' where "m' = m\<lparr>density := AList.update idx 1 (density m),
                      canopy := AList.update idx (p_z p) (canopy m),
                      ground := AList.update idx (p_z p) (ground m),
                      filtered_density := AList.update idx 1 (filtered_density m)\<rparr>"
    have "update_spatial_step a m p = Inr m'"
      by (simp add: update_spatial_step_def idx at True m'_def)
    moreover have "summarises a (qs @ [p]) m'"
      unfolding summarises_def
    proof
      fix k
      show "map_of (density m') k =
              (if cell_points a (qs @ [p]) k = [] then None
               else Some (int (length (cell_points a (qs @ [p]) k)))) \<and>
            map_of (ground m') k =
              (if cell_points a (qs @ [p]) k = [] then None
               else Some (Min (p_z ` set (cell_points a (qs @ [p]) k)))) \<and>
            map_of (canopy m') k =
              (if cell_points a (qs @ [p]) k = [] then None
               else Some (Max (p_z ` set (cell_points a (qs @ [p]) k)))) \<and>
            map_of (filtered_density m') k =
              (if cell_points a (qs @ [p]) k = [] then None else Some 1)"
      proof (cases "k = idx")
        case True
        with \<open>cell_points a qs idx = []\<close> show ?thesis
          by (simp add: m'_def update_conv' cell_points_snoc idx)
      next
        case False
        then show ?thesis
          by (simp add: m'_def update_conv' cell_points_snoc idx at)
      qed
    qed
    ultimately show ?thesis by (auto simp: m'_def)
  next
    case False
    define g where "g = Min (p_z ` set (cell_points a qs idx))"
    define c' where "c' = Max (p_z ` set (cell_points a qs idx))"
    define n where "n = int (length (cell_points a qs idx))"
    have le: "g \<le> c'"
      using False by (simp add: g_def c'_def Min_le_iff)
    have old: "map_of (density m) idx = Some n" "map_of (ground m) idx = Some g"
      "map_of (canopy m) idx = Some c'" "map_of (filtered_density m) idx = Some 1"
      using False by (simp_all add: at g_def c'_def n_def)
    define m' where "m' =
      (if g > p_z p then m\<lparr>density := AList.update idx (n + 1) (density m),
                             ground := AList.update idx (p_z p) (ground m)\<rparr>
       else if c' < p_z p then m\<lparr>density := AList.update idx (n + 1) (density m),
                                  canopy := AList.update idx (p_z p) (canopy m)\<rparr>
       else m\<lparr>density := AList.update idx (n + 1) (density m)\<rparr>)"
    have "update_spatial_step a m p = Inr m'"
      by (simp add: update_spatial_step_def idx old m'_def getitem_def)
    moreover have "summarises a (qs @ [p]) m'"
      unfolding summarises_def
    proof
      fix k
      show "map_of (density m') k =
              (if cell_points a (qs @ [p]) k = [] then None
               else Some (int (length (cell_points a (qs @ [p]) k)))) \<and>
            map_of (ground m') k =
              (if cell_points a (qs @ [p]) k = [] then None
               else Some (Min (p_z ` set (cell_points a (qs @ [p]) k)))) \<and>
            map_of (canopy m') k =
              (if cell_points a (qs @ [p]) k = [] then None
               else Some (Max (p_z ` set (cell_points a (qs @ [p]) k)))) \<and>
            map_of (filtered_density m') k =
              (if cell_points a (qs @ [p]) k = [] then None else Some 1)"
      proof (cases "k = idx")
        case True
        have cp: "cell_points a (qs @ [p]) idx = cell_points a qs idx @ [p]"
          by (simp add: cell_points_snoc idx)
        have ne: "cell_points a (qs @ [p]) idx \<noteq> []"
          by (simp add: cp)
        have mn: "Min (p_z ` set (cell_points a (qs @ [p]) idx)) = min (p_z p) g"
          unfolding cp g_def using False by (rule Min_snoc)
        have mx: "Max (p_z ` set (cell_points a (qs @ [p]) idx)) = max (p_z p) c'"
          unfolding cp c'_def using False by (rule Max_snoc)
        have len: "int (length (cell_points a (qs @ [p]) idx)) = n + 1"
          by (simp add: cp n_def)
        show ?thesis
          unfolding True using le
          by (simp add: ne mn mx len m'_def update_conv' old min_def max_def)
      next
        case False
        then show ?thesis
          by (simp add: m'_def update_conv' cell_points_snoc idx at)
      qed
    qed
    ultimately show ?thesis by (auto simp: m'_def)
  qed
qed

lemma fold_update_spatial_summarises:
  assumes c: "cellsize a \<noteq> 0"
  shows "summarises a qs m \<Longrightarrow>
         \<exists>m'. fold_err (update_spatial_step a) m ps = Inr m' \<and> summarises a (qs @ ps) m' \<and>
              colours m' = colours m \<and> trees m' = trees m \<and> file_points m' = file_points m \<and>
              utm_x m' = utm_x m \<and> utm_y m' = utm_y m"
proof (induction ps arbitrary: qs m)
  case Nil
  then show ?case by simp
next
  case (Cons p ps)
  from update_spatial_step_summarises [OF c Cons.prems, of p]
  obtain m1 where m1: "update_spatial_step a m p = Inr m1" "summarises a (qs @ [p]) m1"
    "colours m1 = colours m" "trees m1 = trees m" "file_points m1 = file_points m"
    "utm_x m1 = utm_x m" "utm_y m1 = utm_y m"
    by blast
  from Cons.IH [OF m1(2)] m1 show ?case
    by simp
qed

lemma summarises_new_map: "summarises a [] (new_map ps ox oy)"
  by (simp add: summarises_def new_map_def cell_points_def)

lemma read_spatial_summarises:
  assumes "cellsize a \<noteq> 0"
  shows "\<exists>m. read_spatial a (new_map ps ox oy) = Inr m \<and> summarises a ps m \<and>
             colours m = [] \<and> trees m = [] \<and> file_points m = ps \<and> utm_x m = ox \<and> utm_y m = oy"
proof -
  have "summarises a [] (new_map ps ox oy)"
    by (rule summarises_new_map)
  from fold_update_spatial_summarises [OF assms this, of ps]
  show ?thesis
    by (simp add: read_spatial_def) (simp add: new_map_def)
qed

text \<open>
  Claim C5, amended: when the loop of \<^verbatim>\<open>update_spatial\<close> has read the file, before the
  ground is smoothed, every occupied cell has a ground height and a canopy height, and
  the ground height is at most the canopy height.
\<close>

theorem ground_le_canopy_after_reading:
  assumes r: "read_spatial a (new_map ps ox oy) = Inr m"
    and occ: "map_of (density m) k = Some n"
  shows "\<exists>g c. map_of (ground m) k = Some g \<and> map_of (canopy m) k = Some c \<and> g \<le> c"
proof (cases "cellsize a = 0")
  case True
  have "ps = []"
  proof (cases ps)
    case (Cons p qs)
    with True r show ?thesis
      by (simp add: read_spatial_def new_map_def update_spatial_step_def coords_def)
  qed simp
  with r occ show ?thesis
    by (auto simp: read_spatial_def new_map_def)
next
  case False
  from read_spatial_summarises [OF False, of ps ox oy] r have s: "summarises a ps m"
    by auto
  note at = summarisesD [OF s, of k]
  from occ at(1) have ne: "cell_points a ps k \<noteq> []"
    by (auto split: if_splits)
  then have "Min (p_z ` set (cell_points a ps k)) \<le> Max (p_z ` set (cell_points a ps k))"
    by (simp add: Min_le_iff)
  with ne at show ?thesis by simp
qed

lemma floor_minus_one: "\<lfloor>- 1 :: real\<rfloor> = - 1"
  by (simp add: floor_eq_iff)

lemma ring_read: "read_spatial example_args (new_map (ring_cloud c n) 0 0) = Inr (ring_map c n)"
  by (simp add: read_spatial_def new_map_def ring_cloud_def pt_def example_args_def
        ring_map_def ring_ground_def ring_density_def update_spatial_step_def coords_def getitem_def
        floor_minus_one)

lemma smooth_rounds_unfold:
  "0 < r \<Longrightarrow> smooth_rounds r a g prior =
     (case detect_issues a g prior of
        Inl e \<Rightarrow> Inl e
      | Inr problematic \<Rightarrow>
          smooth_rounds (r - 1) a (fold (relevel a problematic) problematic g) problematic)"
  by (cases r) (auto split: sum.splits)

lemma ring_detect_high:
  "detect_issues example_args (ring_ground 0 100) (map fst (ring_ground 0 100)) = Inr [(0, 0)]"
  by (simp add: ring_ground_def example_args_def neighbors_eq heights_of_def probs_def getitem_def)

lemma ring_relevel_high:
  "relevel example_args [(0, 0)] (0, 0) (ring_ground 0 100) = ring_ground 102 100"
  by (simp add: ring_ground_def example_args_def neighbors_eq heights_of_def relevel_def)

lemma ring_detect_high2:
  "detect_issues example_args (ring_ground 102 100) [(0, 0)] = Inr []"
  by (simp add: ring_ground_def example_args_def neighbors_eq heights_of_def probs_def getitem_def)

lemma ring_smooth_high: "smooth_ground example_args (ring_ground 0 100) = Inr (ring_ground 102 100)"
  by (simp add: smooth_ground_def smooth_rounds_unfold [of 100] ring_detect_high ring_relevel_high
        smooth_rounds_stable [OF ring_detect_high2] del: detect_issues.simps)

text \<open>The theorem for claim C5 at the cell \<open>(0, 0)\<close> of the example.\<close>

theorem ground_le_canopy_after_reading_witness:
  "read_spatial example_args (new_map example_points 0 0) = Inr (example_map 0 0) \<and>
   map_of (density (example_map 0 0)) (0, 0) = Some 2 \<and>
   (\<exists>g c. map_of (ground (example_map 0 0)) (0, 0) = Some g \<and>
          map_of (canopy (example_map 0 0)) (0, 0) = Some c \<and> g \<le> c)"
proof -
  have r: "read_spatial example_args (new_map example_points 0 0) = Inr (example_map 0 0)"
    by (rule example_read)
  have d: "map_of (density (example_map 0 0)) (0, 0) = Some 2"
    by (simp add: example_map_def)
  from r d ground_le_canopy_after_reading [OF r d] show ?thesis by blast
qed
section \<open>Label propagation on two adjacent coarse keys\<close>

text \<open>
  The example with \<open>joinedcells = 1\<close>: every eligible cell is its own coarse key.
\<close>

lemma expand_returns_early:
  "map_of com (fst k - 1, snd k - 1) = None \<Longrightarrow> expand d k com = Inr (com, True)"
  by (cases k) (simp add: expand_def neighbors_eq)

lemma fine_components:
  "tree_components d fine_args (example_map ox oy) = Inr [((0, 0), 0), ((1, 0), 1)]"
  by (simp add: tree_components_def example_map_def example_args_def fine_args_def
        key_scale_step_def getitem_def
        cc_key_def connected_components_def expand_def neighbors_eq copy_labels_def)

lemma fine_read: "read_spatial fine_args (new_map example_points ox oy) = Inr (example_map ox oy)"
  by (simp add: read_spatial_def new_map_def example_points_def pt_def example_args_def fine_args_def
        example_map_def update_spatial_step_def coords_def getitem_def)

lemma fine_smooth: "smooth_ground fine_args [((0, 0), 0), ((1, 0), 0)] = Inr [((0, 0), 0), ((1, 0), 0)]"
  by (rule smooth_ground_no_issues) (simp add: neighbors_eq heights_of_def)

lemma fine_spatial:
  "update_spatial d fine_args (new_map example_points ox oy)
     = Inr ((example_map ox oy)\<lparr>trees := [((0, 0), 0), ((1, 0), 1)]\<rparr>)"
  using fine_components [of d ox oy]
  by (simp add: update_spatial_def fine_read example_map_def fine_smooth)

text \<open>
  Claim C2 fails on the code. \<^verbatim>\<open>expand\<close> returns at the first neighbour that has no
  label, and \<^verbatim>\<open>connected_components\<close> makes one pass over the keys. For the coarse
  keys \<open>(0, 0)\<close> and \<open>(1, 0)\<close>, which are neighbours, each call of \<^verbatim>\<open>expand\<close> ends at
  its first neighbour, so the labels 0 and 1 stay as they are for every recursion limit.
  With \<open>joinedcells = 1\<close> the four points of the example give two eligible cells with
  these coarse keys, and the cells end with different tree labels.
\<close>

theorem adjacent_keys_stay_apart:
  "connected_components d [((0, 0), 0), ((1, 0), 1)] = Inr [((0, 0), 0), ((1, 0), 1)] \<and>
   (1, 0) \<in> set (neighbors (0, 0)) \<and>
   cc_key fine_args (0, 0) = (0, 0) \<and> cc_key fine_args (1, 0) = (1, 0) \<and>
   (\<exists>m. update_spatial d fine_args (new_map example_points ox oy) = Inr m \<and>
        map_of (trees m) (0, 0) = Some 0 \<and> map_of (trees m) (1, 0) = Some 1)"
proof -
  have "connected_components d [((0, 0), 0), ((1, 0), 1)] = Inr [((0, 0), 0), ((1, 0), 1)]"
    by (simp add: connected_components_def expand_def neighbors_eq)
  moreover have "(1, 0) \<in> set (neighbors (0, 0))"
    by (simp add: neighbors_eq)
  moreover have "cc_key fine_args (0, 0) = (0, 0) \<and> cc_key fine_args (1, 0) = (1, 0)"
    by (simp add: cc_key_def fine_args_def example_args_def)
  moreover have "\<exists>m. update_spatial d fine_args (new_map example_points ox oy) = Inr m \<and>
        map_of (trees m) (0, 0) = Some 0 \<and> map_of (trees m) (1, 0) = Some 1"
    by (simp add: fine_spatial)
  ultimately show ?thesis by blast
qed

section \<open>The colour columns of a tree\<close>

text \<open>
  The example with an amount of red at every point, and a cell whose points are all ground.
\<close>

lemma red_read:
  "read_spatial example_args (new_map red_points ox oy) =
     Inr ((red_map ox oy)\<lparr>filtered_density := [((0, 0), 1), ((1, 0), 1)], colours := [], trees := []\<rparr>)"
  by (simp add: read_spatial_def new_map_def red_points_def red_pt_def example_args_def
        red_map_def update_spatial_step_def coords_def getitem_def)

lemma red_components:
  "tree_components d example_args
     ((red_map ox oy)\<lparr>filtered_density := [((0, 0), 1), ((1, 0), 1)], colours := [], trees := []\<rparr>)
   = Inr [((1, 0), 0), ((0, 0), 0)]"
  by (simp add: tree_components_def red_map_def example_args_def key_scale_step_def getitem_def
        cc_key_def connected_components_def expand_def neighbors_eq copy_labels_def)

lemma red_spatial:
  "update_spatial d example_args (new_map red_points ox oy)
     = Inr ((red_map ox oy)\<lparr>filtered_density := [((0, 0), 1), ((1, 0), 1)], colours := []\<rparr>)"
  using red_components [of d ox oy]
  by (simp add: update_spatial_def red_read red_map_def example_smooth)

lemma red_sparse:
  "save_sparse_cloud example_args
     ((red_map ox oy)\<lparr>filtered_density := [((0, 0), 1), ((1, 0), 1)], colours := []\<rparr>) True True
     = Inr ((red_map ox oy)\<lparr>filtered_density := [((0, 0), 1), ((1, 0), 1)], colours := []\<rparr>, red_points)"
  by (simp add: save_sparse_cloud_def red_map_def red_points_def red_pt_def keep_point_def
        is_ground_def is_lowest_def coords_def getitem_def example_args_def)

lemma red_colours:
  "update_colours example_args
     ((red_map ox oy)\<lparr>filtered_density := [((0, 0), 1), ((1, 0), 1)], colours := []\<rparr>)
     = Inr (red_map ox oy)"
  by (simp add: update_colours_def update_colours_step_def red_map_def red_points_def red_pt_def
        is_ground_def coords_def getitem_def example_args_def)

lemma red_load: "load_map d example_args red_points None ox oy = Inr (red_map ox oy)"
  by (simp add: load_map_def init_map_def red_spatial red_sparse red_colours)

lemma red_data:
  "\<exists>t. tree_data to_latlon example_args (red_map ox oy) [(1, 0), (0, 0)] = Inr t \<and>
       height t = 3 \<and> colour_means t = [(''red'', 5)]"
  by (simp add: tree_data_def sum_ground_def tree_data_step_def set_colour_def
        red_map_def getitem_def example_args_def Let_def)

lemma red_data_swapped:
  "\<exists>t. tree_data to_latlon example_args (red_map ox oy) [(0, 0), (1, 0)] = Inr t \<and>
       height t = 3 \<and> colour_means t = [(''red'', 15)]"
  by (simp add: tree_data_def sum_ground_def tree_data_step_def set_colour_def
        red_map_def getitem_def example_args_def Let_def)

lemma red_rows:
  "\<exists>t. all_trees to_latlon example_args (red_map ox oy) = Inr [t] \<and>
       colour_means t = [(''red'', 5)]"
proof -
  have ids: "remdups (map snd (trees (red_map ox oy))) = [0]"
    by (simp add: red_map_def)
  have keys: "keys_of (red_map ox oy) 0 = [(1, 0), (0, 0)]"
    by (simp add: keys_of_def red_map_def)
  from red_data [of to_latlon ox oy] show ?thesis
    by (auto simp: all_trees_def ids keys example_args_def)
qed

text \<open>
  Claim C3 fails on the code. The four points of the example, with the attribute red,
  give one tree of the cells \<open>(1, 0)\<close> and \<open>(0, 0)\<close>, whose colour totals are 30 and 10
  and whose filtered densities are 2 and 2. The claim asks for the mean
  \<open>(10 + 30) / (2 + 2) = 10\<close>. \<^verbatim>\<open>tree_data\<close> assigns the column anew for each cell, so
  the row holds the quotient of the last cell: 5 in the order of the model, 15 in the
  other order of the two cells.
\<close>

theorem last_cell_colour_reported:
  "(\<exists>t. main_processing to_latlon d example_args red_points None ox oy = Inr [t] \<and>
        colour_means t = [(''red'', 5)]) \<and>
   (\<exists>m. load_map d example_args red_points None ox oy = Inr m \<and>
        keys_of m 0 = [(1, 0), (0, 0)] \<and>
        map_of (colours m) (0, 0) = Some [(''red'', 10)] \<and>
        map_of (colours m) (1, 0) = Some [(''red'', 30)] \<and>
        map_of (filtered_density m) (0, 0) = Some 2 \<and>
        map_of (filtered_density m) (1, 0) = Some 2 \<and>
        (\<exists>t. tree_data to_latlon example_args m [(0, 0), (1, 0)] = Inr t \<and>
             colour_means t = [(''red'', 15)])) \<and>
   (10 + 30) / (2 + 2) = (10 :: real)"
proof -
  have "\<exists>t. main_processing to_latlon d example_args red_points None ox oy = Inr [t] \<and>
        colour_means t = [(''red'', 5)]"
    using red_rows [of to_latlon ox oy] by (simp add: main_processing_def red_load)
  moreover have "keys_of (red_map ox oy) 0 = [(1, 0), (0, 0)]"
    by (simp add: keys_of_def red_map_def)
  moreover have "map_of (colours (red_map ox oy)) (0, 0) = Some [(''red'', 10)]"
    "map_of (colours (red_map ox oy)) (1, 0) = Some [(''red'', 30)]"
    "map_of (filtered_density (red_map ox oy)) (0, 0) = Some 2"
    "map_of (filtered_density (red_map ox oy)) (1, 0) = Some 2"
    by (simp_all add: red_map_def)
  moreover have "\<exists>t. tree_data to_latlon example_args (red_map ox oy) [(0, 0), (1, 0)] = Inr t \<and>
             colour_means t = [(''red'', 15)]"
    using red_data_swapped [of to_latlon ox oy] by blast
  ultimately show ?thesis
    by (simp add: red_load)
qed

lemma low_read:
  "read_spatial low_slice_args (new_map low_points ox oy) = Inr ((low_map ox oy)\<lparr>trees := []\<rparr>)"
  by (simp add: read_spatial_def new_map_def low_points_def pt_def example_args_def low_slice_args_def
        low_map_def update_spatial_step_def coords_def getitem_def)

lemma low_smooth: "smooth_ground low_slice_args [((0, 0), 0)] = Inr [((0, 0), 0)]"
  by (rule smooth_ground_no_issues) (simp add: neighbors_eq heights_of_def)

lemma low_components:
  "tree_components d low_slice_args ((low_map ox oy)\<lparr>trees := []\<rparr>) = Inr [((0, 0), 0)]"
  by (simp add: tree_components_def low_map_def example_args_def low_slice_args_def key_scale_step_def
        getitem_def cc_key_def connected_components_def expand_def neighbors_eq copy_labels_def)

lemma low_spatial:
  "update_spatial d low_slice_args (new_map low_points ox oy) = Inr (low_map ox oy)"
  using low_components [of d ox oy]
  by (simp add: update_spatial_def low_read low_map_def low_smooth)

lemma low_sparse:
  "save_sparse_cloud low_slice_args (low_map ox oy) True True
     = Inr ((low_map ox oy)\<lparr>file_points := [pt 0 0 0]\<rparr>, [pt 0 0 0])"
  by (simp add: save_sparse_cloud_def low_map_def low_points_def pt_def keep_point_def
        is_ground_def is_lowest_def coords_def getitem_def example_args_def low_slice_args_def)

lemma low_colours:
  "update_colours low_slice_args (low_map ox oy) = Inr (low_map ox oy)"
  by (simp add: update_colours_def update_colours_step_def low_map_def low_points_def pt_def
        is_ground_def coords_def getitem_def example_args_def low_slice_args_def)

lemma low_colours_sparse:
  "update_colours low_slice_args ((low_map ox oy)\<lparr>file_points := [pt 0 0 0]\<rparr>)
     = Inr ((low_map ox oy)\<lparr>file_points := [pt 0 0 0]\<rparr>)"
  by (simp add: update_colours_def update_colours_step_def low_map_def low_points_def pt_def
        is_ground_def coords_def getitem_def example_args_def low_slice_args_def)

lemma low_all_trees:
  "all_trees to_latlon low_slice_args ((low_map ox oy)\<lparr>file_points := ps\<rparr>) = Inl KeyError"
  by (simp add: all_trees_def keys_of_def tree_data_def sum_ground_def tree_data_step_def
        low_map_def getitem_def Let_def)

text \<open>
  Claim C10 fails on the code. With \<open>slicedepth = 0.1\<close> and \<open>grounddepth = 0.5\<close> a cell
  with the points \<open>(0,0,0)\<close> and \<open>(0,0,0.3)\<close> is a member of a tree, and both its points
  are ground points, so the second pass gives it no entry in the colour map:
  \<^verbatim>\<open>self.colours[k]\<close> raises KeyError in \<^verbatim>\<open>tree_data\<close>, on both paths of
  \<^verbatim>\<open>main_processing\<close>.
\<close>

theorem colour_lookup_fails:
  "main_processing to_latlon d low_slice_args low_points None ox oy = Inl KeyError \<and>
   main_processing to_latlon d low_slice_args low_points (Some low_points) ox oy = Inl KeyError \<and>
   (\<exists>m. load_map d low_slice_args low_points None ox oy = Inr m \<and>
        map_of (trees m) (0, 0) = Some 0 \<and> map_of (colours m) (0, 0) = None)"
proof -
  have l: "load_map d low_slice_args low_points None ox oy
             = Inr ((low_map ox oy)\<lparr>file_points := [pt 0 0 0]\<rparr>)"
    by (simp add: load_map_def init_map_def low_spatial low_sparse low_colours_sparse)
  have l': "load_map d low_slice_args low_points (Some low_points) ox oy = Inr (low_map ox oy)"
    by (simp add: load_map_def init_map_def low_spatial low_colours)
  have "(low_map ox oy)\<lparr>file_points := low_points\<rparr> = low_map ox oy"
    by (simp add: low_map_def)
  with low_all_trees [where ps = low_points and ox = ox and oy = oy and to_latlon = to_latlon]
  have a': "all_trees to_latlon low_slice_args (low_map ox oy) = Inl KeyError"
    by simp
  show ?thesis
    by (simp add: main_processing_def l l' a' low_all_trees) (simp add: low_map_def)
qed

section \<open>Smoothing one outlier\<close>

text \<open>
  One cell far below, or far above, its eight neighbours is problematic in the first
  round and level with them in the second.
\<close>

lemma ring_components_high:
  "tree_components d example_args ((ring_map 0 100)\<lparr>ground := ring_ground 102 100\<rparr>) = Inr []"
  by (simp add: tree_components_def ring_map_def ring_ground_def ring_density_def example_args_def
        key_scale_step_def getitem_def connected_components_def copy_labels_def)

text \<open>
  Claim C5 as stated fails: smoothing can lift the ground of a cell above its canopy.
  In \<open>ring_cloud 0 100\<close> the cell \<open>(0, 0)\<close> holds one point of height 0 and its eight
  neighbours hold one point each, of heights 100 to 103.5. The cell is problematic, and
  smoothing sets its ground to \<open>100 + 2 * cellsize = 102\<close>; its canopy stays 0.
\<close>

theorem smoothing_lifts_ground_above_canopy:
  "\<exists>m. update_spatial 1000 example_args (new_map (ring_cloud 0 100) 0 0) = Inr m \<and>
       map_of (density m) (0, 0) = Some 1 \<and>
       map_of (ground m) (0, 0) = Some 102 \<and>
       map_of (canopy m) (0, 0) = Some 0"
proof -
  have "update_spatial 1000 example_args (new_map (ring_cloud 0 100) 0 0)
          = Inr ((ring_map 0 100)\<lparr>ground := ring_ground 102 100, trees := []\<rparr>)"
    using ring_components_high [of 1000]
    by (simp add: update_spatial_def ring_read ring_map_def ring_smooth_high)
  then show ?thesis
    by (simp add: ring_map_def ring_ground_def ring_density_def)
qed

lemma ring_detect_low:
  "detect_issues example_args (ring_ground 100 0) (map fst (ring_ground 100 0)) = Inr [(0, 0)]"
  by (simp add: ring_ground_def example_args_def neighbors_eq heights_of_def probs_def getitem_def)

lemma ring_relevel_low:
  "relevel example_args [(0, 0)] (0, 0) (ring_ground 100 0) = ring_ground 2 0"
  by (simp add: ring_ground_def example_args_def neighbors_eq heights_of_def relevel_def)

lemma ring_detect_low2:
  "detect_issues example_args (ring_ground 2 0) [(0, 0)] = Inr []"
  by (simp add: ring_ground_def example_args_def neighbors_eq heights_of_def probs_def getitem_def)

lemma ring_smooth_low: "smooth_ground example_args (ring_ground 100 0) = Inr (ring_ground 2 0)"
  by (simp add: smooth_ground_def smooth_rounds_unfold [of 100] ring_detect_low ring_relevel_low
        smooth_rounds_stable [OF ring_detect_low2] del: detect_issues.simps)

lemma ring_components_low:
  "tree_components d example_args ((ring_map 100 0)\<lparr>ground := ring_ground 2 0\<rparr>) = Inr [((0, 0), 0)]"
  by (simp add: tree_components_def ring_map_def ring_ground_def ring_density_def example_args_def
        key_scale_step_def getitem_def connected_components_def copy_labels_def cc_key_def
        expand_def neighbors_eq)

lemma ring_spatial_low:
  "update_spatial d example_args (new_map (ring_cloud 100 0) 0 0)
     = Inr ((ring_map 100 0)\<lparr>ground := ring_ground 2 0, trees := [((0, 0), 0)]\<rparr>)"
  using ring_components_low [of d]
  by (simp add: update_spatial_def ring_read ring_map_def ring_smooth_low)

lemma ring_colours_low:
  "\<exists>m. update_colours example_args
          ((ring_map 100 0)\<lparr>ground := ring_ground 2 0, trees := [((0, 0), 0)]\<rparr>) = Inr m \<and>
       map_of (filtered_density m) (0, 0) = Some 2 \<and> map_of (density m) (0, 0) = Some 1"
  by (simp add: update_colours_def update_colours_step_def ring_map_def ring_cloud_def pt_def
        ring_ground_def ring_density_def is_ground_def coords_def getitem_def example_args_def
        floor_minus_one)

lemma ring_sparse_low:
  "save_sparse_cloud example_args
     ((ring_map 100 0)\<lparr>ground := ring_ground 2 0, trees := [((0, 0), 0)]\<rparr>) True True
   = Inr ((ring_map 100 0)\<lparr>ground := ring_ground 2 0, trees := [((0, 0), 0)]\<rparr>, ring_cloud 100 0)"
  by (simp add: save_sparse_cloud_def ring_map_def ring_cloud_def pt_def ring_ground_def
        keep_point_def is_ground_def is_lowest_def coords_def getitem_def example_args_def
        floor_minus_one)

text \<open>
  Claim C6 fails on the code. In \<open>ring_cloud 100 0\<close> the cell \<open>(0, 0)\<close> holds one point
  of height 100 above eight neighbours of heights 0 to 3.5. Smoothing lowers its ground
  to 2, so its only point is no ground point and the second pass counts it: the
  filtered density, which starts at 1, becomes 2, and the raw density is 1. This holds
  on both paths of \<^verbatim>\<open>main_processing\<close>.
\<close>

theorem filtered_density_exceeds_density:
  "(\<exists>m. load_map d example_args (ring_cloud 100 0) None 0 0 = Inr m \<and>
        map_of (filtered_density m) (0, 0) = Some 2 \<and> map_of (density m) (0, 0) = Some 1) \<and>
   (\<exists>m. load_map d example_args (ring_cloud 100 0) (Some (ring_cloud 100 0)) 0 0 = Inr m \<and>
        map_of (filtered_density m) (0, 0) = Some 2 \<and> map_of (density m) (0, 0) = Some 1)"
  using ring_colours_low
  by (simp add: load_map_def init_map_def ring_spatial_low ring_sparse_low)

section \<open>The height threshold\<close>

text \<open>
  The rows that \<^verbatim>\<open>all_trees\<close> yields are the rows of \<^verbatim>\<open>tree_data\<close> above the threshold.
\<close>

lemma yield_trees_rows:
  "yield_trees proj a m ids = Inr rows \<longleftrightarrow>
     (\<exists>ts. map (\<lambda>v. tree_data proj a m (keys_of m v)) ids = map Inr ts \<and>
           rows = filter (\<lambda>t. height t > 1.5 * slicedepth a) ts)"
proof (induction ids arbitrary: rows)
  case Nil
  then show ?case by auto
next
  case (Cons v ids)
  show ?case
  proof (cases "tree_data proj a m (keys_of m v)")
    case (Inl e)
    then show ?thesis by (auto simp: map_eq_Cons_conv)
  next
    case (Inr t)
    show ?thesis
    proof (cases "yield_trees proj a m ids")
      case (Inl e)
      with Cons.IH Inr show ?thesis
        by (auto simp: map_eq_Cons_conv)
    next
      case r: (Inr rest)
      with Cons.IH [of rest] obtain ts0 where
        ts0: "map (\<lambda>v. tree_data proj a m (keys_of m v)) ids = map Inr ts0"
          "rest = filter (\<lambda>t. height t > 1.5 * slicedepth a) ts0"
        by auto
      have inj: "map Inr ts = map Inr ts0 \<longleftrightarrow> ts = ts0" for ts :: "tree list"
        by (simp add: inj_map_eq_map)
      show ?thesis
        using Inr r ts0 by (auto simp: map_eq_Cons_conv Cons_eq_map_conv inj)
    qed
  qed
qed

text \<open>
  Claim C8. When \<^verbatim>\<open>all_trees\<close> returns, \<^verbatim>\<open>tree_data\<close> has built a row for each label,
  and the rows yielded are, in order, exactly the rows whose height is greater than
  \<open>1.5 * slicedepth\<close>: a row is yielded if and only if its height exceeds that bound, so
  a row whose height equals it is left out.
\<close>

theorem all_trees_threshold:
  assumes "all_trees to_latlon a m = Inr rows"
  shows "\<exists>ts. map (\<lambda>v. tree_data to_latlon a m (keys_of m v)) (remdups (map snd (trees m))) = map Inr ts \<and>
              rows = filter (\<lambda>t. height t > 1.5 * slicedepth a) ts \<and>
              (\<forall>t \<in> set ts. t \<in> set rows \<longleftrightarrow> height t > 1.5 * slicedepth a)"
proof -
  from assms obtain ts where
    "map (\<lambda>v. tree_data to_latlon a m (keys_of m v)) (remdups (map snd (trees m))) = map Inr ts"
    "rows = filter (\<lambda>t. height t > 1.5 * slicedepth a) ts"
    unfolding all_trees_def yield_trees_rows by blast
  then show ?thesis by auto
qed

text \<open>
  The theorem for claim C8 at the map of the example: its one row, of height 3, is
  yielded for the slice depth 0.5, and is left out for the slice depth 2, where its height
  is exactly 1.5 times the slice depth.
\<close>

theorem all_trees_threshold_witness:
  "(\<exists>t. all_trees no_projection example_args example_loaded = Inr [t] \<and>
        tree_data no_projection example_args example_loaded (keys_of example_loaded 0) = Inr t \<and>
        height t > 1.5 * slicedepth example_args) \<and>
   (\<exists>t. all_trees no_projection boundary_args example_loaded = Inr [] \<and>
        tree_data no_projection boundary_args example_loaded (keys_of example_loaded 0) = Inr t \<and>
        height t = 1.5 * slicedepth boundary_args)"
proof -
  from example_all_trees [of no_projection 0 0] obtain t where
    t: "all_trees no_projection example_args example_loaded = Inr [t]"
    unfolding example_loaded_def by blast
  have ids: "remdups (map snd (trees example_loaded)) = [0]"
    by (simp add: example_loaded_def)
  from all_trees_threshold [OF t] obtain ts where
    ts: "map (\<lambda>v. tree_data no_projection example_args example_loaded (keys_of example_loaded v)) [0]
           = map Inr ts"
      "[t] = filter (\<lambda>t. height t > 1.5 * slicedepth example_args) ts"
    unfolding ids by blast
  from ts(1) obtain t' where t': "ts = [t']"
    "tree_data no_projection example_args example_loaded (keys_of example_loaded 0) = Inr t'"
    by (auto simp: Cons_eq_map_conv)
  from ts(2) t'(1) have "t' = t \<and> height t > 1.5 * slicedepth example_args"
    by (simp split: if_splits)
  with t t'(2) have 1: "\<exists>t. all_trees no_projection example_args example_loaded = Inr [t] \<and>
        tree_data no_projection example_args example_loaded (keys_of example_loaded 0) = Inr t \<and>
        height t > 1.5 * slicedepth example_args"
    by blast
  have keys: "keys_of example_loaded 0 = [(1, 0), (0, 0)]"
    by (simp add: keys_of_def example_loaded_def)
  have "\<exists>t. tree_data no_projection boundary_args example_loaded [(1, 0), (0, 0)] = Inr t \<and>
          height t = 3"
    by (simp add: tree_data_def sum_ground_def tree_data_step_def example_loaded_def
          example_map_def getitem_def Let_def)
  then obtain t2 where t2: "tree_data no_projection boundary_args example_loaded [(1, 0), (0, 0)] = Inr t2"
    "height t2 = 3"
    by blast
  have sd: "slicedepth boundary_args = 2"
    by (simp add: boundary_args_def)
  from t2 have "all_trees no_projection boundary_args example_loaded = Inr []"
    by (simp add: all_trees_def ids keys sd)
  with t2 have 2: "\<exists>t. all_trees no_projection boundary_args example_loaded = Inr [] \<and>
        tree_data no_projection boundary_args example_loaded (keys_of example_loaded 0) = Inr t \<and>
        height t = 1.5 * slicedepth boundary_args"
    by (auto simp: keys sd)
  from 1 2 show ?thesis by blast
qed
section \<open>Smoothing and label propagation never raise\<close>

text \<open>
  Both only write to keys that the dictionary has already, so they keep its keys and
  their order.
\<close>

lemma keys_update_present:
  "k \<in> fst ` set al \<Longrightarrow> map fst (AList.update k v al) = map fst al"
  by (simp add: update_keys)

lemma keys_relevel:
  "key \<in> fst ` set g \<Longrightarrow> map fst (relevel a pr key g) = map fst g"
  by (simp add: relevel_def Let_def keys_update_present)

lemma keys_fold_relevel:
  "set ks \<subseteq> fst ` set g \<Longrightarrow> map fst (fold (relevel a pr) ks g) = map fst g"
proof (induction ks arbitrary: g)
  case Nil
  then show ?case by simp
next
  case (Cons k ks)
  from Cons.prems have k: "map fst (relevel a pr k g) = map fst g"
    by (simp add: keys_relevel)
  then have "fst ` set (relevel a pr k g) = fst ` set g"
    by (metis set_map)
  with Cons.prems have "set ks \<subseteq> fst ` set (relevel a pr k g)"
    by simp
  from Cons.IH [OF this] k show ?case by simp
qed

lemma smooth_rounds_total:
  "set prior \<subseteq> fst ` set g \<Longrightarrow>
   \<exists>g'. smooth_rounds r a g prior = Inr g' \<and> map fst g' = map fst g"
proof (induction r arbitrary: g prior)
  case 0
  then show ?case by simp
next
  case (Suc r)
  let ?pr = "filter (flagged a g) prior"
  let ?g = "fold (relevel a ?pr) ?pr g"
  have d: "detect_issues a g prior = Inr ?pr"
    using Suc.prems by (rule detect_issues_filter)
  have sub: "set ?pr \<subseteq> fst ` set g"
    using Suc.prems by auto
  then have k: "map fst ?g = map fst g"
    by (rule keys_fold_relevel)
  then have "fst ` set ?g = fst ` set g"
    by (metis set_map)
  with sub have "set ?pr \<subseteq> fst ` set ?g"
    by simp
  from Suc.IH [OF this] k show ?case
    by (simp add: d)
qed

lemma smooth_ground_total:
  "\<exists>g'. smooth_ground a g = Inr g' \<and> map fst g' = map fst g"
  unfolding smooth_ground_def by (rule smooth_rounds_total) simp

lemma expand_loop_total:
  "old_key \<in> fst ` set com \<Longrightarrow>
   \<exists>com' finished. expand_loop d old_key keys com = Inr (com', finished) \<and> map fst com' = map fst com"
proof (induction d old_key keys com rule: expand_loop.induct)
  case (1 d old_key com)
  then show ?case by auto
next
  case (2 d old_key key keys com)
  from "2.prems" obtain l_old where old: "map_of com old_key = Some l_old"
    by (metis domD dom_map_of_conv_image_fst)
  then have gold: "getitem com old_key = Inr l_old"
    by (simp add: getitem_def)
  show ?case
  proof (cases "map_of com key")
    case None
    then show ?thesis by auto
  next
    case (Some l)
    then have key: "key \<in> fst ` set com"
      by (metis domI dom_map_of_conv_image_fst)
    consider "l = l_old" | "l < l_old" | "l_old < l"
      by linarith
    then show ?thesis
    proof cases
      case 1
      from "2.IH"(1) [OF Some gold 1 "2.prems"] Some gold 1 show ?thesis
        by auto
    next
      case 2
      then have ne: "l \<noteq> l_old" by simp
      have k: "map fst (AList.update old_key l com) = map fst com"
        using "2.prems" by (rule keys_update_present)
      then have "old_key \<in> fst ` set (AList.update old_key l com)"
        using "2.prems" by (metis set_map)
      from "2.IH"(2) [OF Some gold ne 2 this] Some gold 2 k show ?thesis
        by auto
    next
      case 3
      then have ne: "l \<noteq> l_old" and nl: "\<not> l < l_old" by simp_all
      have k: "map fst (AList.update key l_old com) = map fst com"
        using key by (rule keys_update_present)
      show ?thesis
      proof (cases d)
        case 0
        with 3 Some gold k show ?thesis by auto
      next
        case (Suc d')
        have "key \<in> fst ` set (AList.update key l_old com)"
          using key k by (metis set_map)
        from "2.IH"(3) [OF Some gold ne nl Suc this] k
        obtain com' finished where
          in1: "expand_loop d' key (neighbors key) (AList.update key l_old com) = Inr (com', finished)"
            "map fst com' = map fst com"
          by auto
        show ?thesis
        proof (cases finished)
          case True
          have "old_key \<in> fst ` set com'"
            using "2.prems" in1(2) by (metis set_map)
          from "2.IH"(4) [OF Some gold ne nl Suc in1(1) refl True this] in1(2)
          obtain com'' finished' where
            "expand_loop d old_key keys com' = Inr (com'', finished')" "map fst com'' = map fst com"
            by auto
          with Some gold 3 Suc in1(1) True show ?thesis
            by auto
        next
          case False
          with 3 Some gold Suc in1 show ?thesis by auto
        qed
      qed
    qed
  qed
qed

lemma components_loop_total:
  "set ks \<subseteq> fst ` set com \<Longrightarrow>
   \<exists>com'. components_loop d ks com = Inr com' \<and> map fst com' = map fst com"
proof (induction ks arbitrary: com)
  case Nil
  then show ?case by simp
next
  case (Cons k ks)
  from Cons.prems have "k \<in> fst ` set com" by simp
  from expand_loop_total [OF this, of d "neighbors k"]
  obtain com1 finished where
    e: "expand d k com = Inr (com1, finished)" "map fst com1 = map fst com"
    unfolding expand_def by blast
  then have "fst ` set com1 = fst ` set com"
    by (metis set_map)
  with Cons.prems have "set ks \<subseteq> fst ` set com1" by simp
  from Cons.IH [OF this] e show ?case by auto
qed

lemma connected_components_total:
  "\<exists>com'. connected_components d com = Inr com' \<and> map fst com' = map fst com"
  unfolding connected_components_def by (rule components_loop_total) simp

section \<open>The cells that get a tree label\<close>

text \<open>
  With \<open>joinedcells\<close> different from 0, \<^verbatim>\<open>_tree_components\<close> labels exactly the eligible
  cells of the density map.
\<close>

lemma cells_of_update_new:
  assumes "map_of ksr ck = None"
  shows "cells_of (AList.update ck [k] ksr) = insert k (cells_of ksr)"
proof -
  have "s \<in> cells_of (AList.update ck [k] ksr) \<longleftrightarrow> s = k \<or> s \<in> cells_of ksr" for s
  proof -
    have "(\<exists>ck' v. ((map_of ksr)(ck \<mapsto> [k])) ck' = Some v \<and> s \<in> set v)
          \<longleftrightarrow> s = k \<or> (\<exists>ck' v. map_of ksr ck' = Some v \<and> s \<in> set v)"
    proof
      assume "\<exists>ck' v. ((map_of ksr)(ck \<mapsto> [k])) ck' = Some v \<and> s \<in> set v"
      then obtain ck' v where h: "((map_of ksr)(ck \<mapsto> [k])) ck' = Some v" "s \<in> set v"
        by blast
      show "s = k \<or> (\<exists>ck' v. map_of ksr ck' = Some v \<and> s \<in> set v)"
      proof (cases "ck' = ck")
        case True
        with h show ?thesis by auto
      next
        case False
        with h show ?thesis by auto
      qed
    next
      assume "s = k \<or> (\<exists>ck' v. map_of ksr ck' = Some v \<and> s \<in> set v)"
      then show "\<exists>ck' v. ((map_of ksr)(ck \<mapsto> [k])) ck' = Some v \<and> s \<in> set v"
      proof
        assume "s = k"
        then have "((map_of ksr)(ck \<mapsto> [k])) ck = Some [k] \<and> s \<in> set [k]"
          by simp
        then show ?thesis by blast
      next
        assume "\<exists>ck' v. map_of ksr ck' = Some v \<and> s \<in> set v"
        then obtain ck' v where h: "map_of ksr ck' = Some v" "s \<in> set v" by blast
        with assms have "ck' \<noteq> ck" by auto
        with h have "((map_of ksr)(ck \<mapsto> [k])) ck' = Some v \<and> s \<in> set v"
          by simp
        then show ?thesis by blast
      qed
    qed
    then show ?thesis
      by (simp add: cells_of_def update_conv')
  qed
  then show ?thesis by blast
qed

lemma cells_of_update_old:
  assumes "map_of ksr ck = Some s"
  shows "cells_of (AList.update ck (List.insert k s) ksr) = insert k (cells_of ksr)"
proof -
  have "x \<in> cells_of (AList.update ck (List.insert k s) ksr) \<longleftrightarrow> x = k \<or> x \<in> cells_of ksr" for x
  proof -
    have "(\<exists>ck' v. ((map_of ksr)(ck \<mapsto> List.insert k s)) ck' = Some v \<and> x \<in> set v)
          \<longleftrightarrow> x = k \<or> (\<exists>ck' v. map_of ksr ck' = Some v \<and> x \<in> set v)"
    proof
      assume "\<exists>ck' v. ((map_of ksr)(ck \<mapsto> List.insert k s)) ck' = Some v \<and> x \<in> set v"
      then obtain ck' v where h: "((map_of ksr)(ck \<mapsto> List.insert k s)) ck' = Some v" "x \<in> set v"
        by blast
      show "x = k \<or> (\<exists>ck' v. map_of ksr ck' = Some v \<and> x \<in> set v)"
      proof (cases "ck' = ck")
        case True
        with h have "x = k \<or> x \<in> set s" by auto
        with assms show ?thesis by blast
      next
        case False
        with h show ?thesis by auto
      qed
    next
      assume "x = k \<or> (\<exists>ck' v. map_of ksr ck' = Some v \<and> x \<in> set v)"
      then show "\<exists>ck' v. ((map_of ksr)(ck \<mapsto> List.insert k s)) ck' = Some v \<and> x \<in> set v"
      proof
        assume "x = k"
        then have "((map_of ksr)(ck \<mapsto> List.insert k s)) ck = Some (List.insert k s) \<and>
                   x \<in> set (List.insert k s)"
          by simp
        then show ?thesis by blast
      next
        assume "\<exists>ck' v. map_of ksr ck' = Some v \<and> x \<in> set v"
        then obtain ck' v where h: "map_of ksr ck' = Some v" "x \<in> set v" by blast
        show ?thesis
        proof (cases "ck' = ck")
          case True
          with h assms have "x \<in> set (List.insert k s)" by simp
          then have "((map_of ksr)(ck \<mapsto> List.insert k s)) ck = Some (List.insert k s) \<and>
                   x \<in> set (List.insert k s)"
            by simp
          then show ?thesis by blast
        next
          case False
          with h have "((map_of ksr)(ck \<mapsto> List.insert k s)) ck' = Some v \<and> x \<in> set v"
            by simp
          then show ?thesis by blast
        qed
      qed
    qed
    then show ?thesis
      by (simp add: cells_of_def update_conv')
  qed
  then show ?thesis by blast
qed

lemma key_scale_step_total:
  assumes j: "joinedcells a \<noteq> 0"
    and c: "map_of (canopy m) k = Some c" and g: "map_of (ground m) k = Some g"
    and d: "distinct (map fst ksr)"
  shows "\<exists>ksr'. key_scale_step a m ksr k = Inr ksr' \<and> distinct (map fst ksr') \<and>
               cells_of ksr' = cells_of ksr \<union> (if eligible a m k then {k} else {})"
proof (cases "c - g > slicedepth a")
  case False
  with c g d show ?thesis
    by (simp add: key_scale_step_def getitem_def eligible_def)
next
  case True
  then have e: "eligible a m k"
    by (simp add: eligible_def c g)
  show ?thesis
  proof (cases "map_of ksr (cc_key a k)")
    case None
    with True j c g d e show ?thesis
      by (simp add: key_scale_step_def getitem_def distinct_update cells_of_update_new)
  next
    case (Some s)
    with True j c g d e show ?thesis
      by (simp add: key_scale_step_def getitem_def distinct_update cells_of_update_old)
  qed
qed

lemma key_scale_fold_total:
  assumes j: "joinedcells a \<noteq> 0"
    and cg: "\<forall>k \<in> set ks. map_of (canopy m) k \<noteq> None \<and> map_of (ground m) k \<noteq> None"
  shows "distinct (map fst ksr) \<Longrightarrow>
         \<exists>ksr'. fold_err (key_scale_step a m) ksr ks = Inr ksr' \<and> distinct (map fst ksr') \<and>
               cells_of ksr' = cells_of ksr \<union> {k \<in> set ks. eligible a m k}"
  using cg
proof (induction ks arbitrary: ksr)
  case Nil
  then show ?case by simp
next
  case (Cons k ks)
  from Cons.prems(2) obtain c g where
    "map_of (canopy m) k = Some c" "map_of (ground m) k = Some g"
    by auto
  from key_scale_step_total [OF j this Cons.prems(1)]
  obtain ksr1 where s: "key_scale_step a m ksr k = Inr ksr1" "distinct (map fst ksr1)"
    "cells_of ksr1 = cells_of ksr \<union> (if eligible a m k then {k} else {})"
    by blast
  from Cons.prems(2) have "\<forall>k \<in> set ks. map_of (canopy m) k \<noteq> None \<and> map_of (ground m) k \<noteq> None"
    by simp
  from Cons.IH [OF s(2) this] obtain ksr' where
    "fold_err (key_scale_step a m) ksr1 ks = Inr ksr'" "distinct (map fst ksr')"
    "cells_of ksr' = cells_of ksr1 \<union> {k \<in> set ks. eligible a m k}"
    by blast
  with s(1,3) show ?case
    by auto
qed

lemma keys_fold_update: "fst ` set (fold (\<lambda>s. AList.update s l) v out) = fst ` set out \<union> set v"
  by (induction v arbitrary: out) (auto simp: dom_update)

lemma copy_labels_total:
  assumes "\<forall>kv \<in> set ksr. fst kv \<in> fst ` set labels"
  shows "\<exists>t. fold_err (copy_labels labels) out ksr = Inr t \<and>
             fst ` set t = fst ` set out \<union> (\<Union>kv \<in> set ksr. set (snd kv))"
  using assms
proof (induction ksr arbitrary: out)
  case Nil
  then show ?case by simp
next
  case (Cons kv ksr)
  from Cons.prems have "fst kv \<in> fst ` set labels" by simp
  then obtain l where l: "map_of labels (fst kv) = Some l"
    by (metis domD dom_map_of_conv_image_fst)
  define out1 where "out1 = (if snd kv = [] then out else fold (\<lambda>s. AList.update s l) (snd kv) out)"
  have s: "copy_labels labels out kv = Inr out1"
    by (simp add: copy_labels_def getitem_def l out1_def)
  have k: "fst ` set out1 = fst ` set out \<union> set (snd kv)"
    by (simp add: out1_def keys_fold_update)
  from Cons.prems have "\<forall>kv \<in> set ksr. fst kv \<in> fst ` set labels" by simp
  from Cons.IH [OF this, of out1] s k show ?case
    by auto
qed

lemma cells_of_distinct:
  assumes "distinct (map fst ksr)"
  shows "cells_of ksr = (\<Union>kv \<in> set ksr. set (snd kv))"
proof -
  have "(\<exists>ck v. map_of ksr ck = Some v \<and> s \<in> set v) \<longleftrightarrow> (\<exists>kv \<in> set ksr. s \<in> set (snd kv))" for s
    using assms by (metis map_of_eq_Some_iff prod.collapse snd_conv)
  then show ?thesis
    by (auto simp: cells_of_def)
qed

lemma tree_components_total:
  assumes j: "joinedcells a \<noteq> 0"
    and cg: "\<forall>k \<in> fst ` set (density m). map_of (canopy m) k \<noteq> None \<and> map_of (ground m) k \<noteq> None"
  shows "\<exists>t. tree_components d a m = Inr t \<and>
             fst ` set t = {k \<in> fst ` set (density m). eligible a m k}"
proof -
  from cg have "\<forall>k \<in> set (map fst (density m)).
      map_of (canopy m) k \<noteq> None \<and> map_of (ground m) k \<noteq> None"
    by simp
  from key_scale_fold_total [OF j this, of "[]"]
  obtain ksr where ksr: "fold_err (key_scale_step a m) [] (map fst (density m)) = Inr ksr"
    "distinct (map fst ksr)"
    "cells_of ksr = {k \<in> fst ` set (density m). eligible a m k}"
    by (auto simp: cells_of_def)
  from connected_components_total [of d "zip (map fst ksr) (map int [0..<length ksr])"]
  obtain labels where labels:
    "connected_components d (zip (map fst ksr) (map int [0..<length ksr])) = Inr labels"
    "map fst labels = map fst ksr"
    by auto
  then have "fst ` set labels = fst ` set ksr"
    by (metis set_map)
  then have "\<forall>kv \<in> set ksr. fst kv \<in> fst ` set labels"
    by simp
  from copy_labels_total [OF this, of "[]"] obtain t where
    "fold_err (copy_labels labels) [] ksr = Inr t" "fst ` set t = (\<Union>kv \<in> set ksr. set (snd kv))"
    by auto
  with ksr labels(1) show ?thesis
    by (simp add: tree_components_def cells_of_distinct)
qed

section \<open>The first pass succeeds; the points of the sparse cloud\<close>

text \<open>
  With a cell size and \<open>joinedcells\<close> different from 0 the first pass never raises. The
  sparse cloud keeps the lowest point of every cell, and the highest where it is not
  ground.
\<close>

lemma summarises_keys:
  assumes "summarises a ps m"
  shows "fst ` set (density m) = {k. cell_points a ps k \<noteq> []}"
    and "fst ` set (ground m) = {k. cell_points a ps k \<noteq> []}"
    and "fst ` set (canopy m) = {k. cell_points a ps k \<noteq> []}"
proof -
  note at = summarisesD [OF assms]
  have "k \<in> dom (map_of (density m)) \<longleftrightarrow> cell_points a ps k \<noteq> []" for k
    by (simp add: at dom_def)
  then show "fst ` set (density m) = {k. cell_points a ps k \<noteq> []}"
    unfolding dom_map_of_conv_image_fst by blast
  have "k \<in> dom (map_of (ground m)) \<longleftrightarrow> cell_points a ps k \<noteq> []" for k
    by (simp add: at dom_def)
  then show "fst ` set (ground m) = {k. cell_points a ps k \<noteq> []}"
    unfolding dom_map_of_conv_image_fst by blast
  have "k \<in> dom (map_of (canopy m)) \<longleftrightarrow> cell_points a ps k \<noteq> []" for k
    by (simp add: at dom_def)
  then show "fst ` set (canopy m) = {k. cell_points a ps k \<noteq> []}"
    unfolding dom_map_of_conv_image_fst by blast
qed

lemma update_spatial_total:
  assumes c: "cellsize a \<noteq> 0" and j: "joinedcells a \<noteq> 0"
  shows "\<exists>mr g t. read_spatial a (new_map ps ox oy) = Inr mr \<and> summarises a ps mr \<and>
           colours mr = [] \<and> file_points mr = ps \<and>
           smooth_ground a (ground mr) = Inr g \<and> map fst g = map fst (ground mr) \<and>
           update_spatial d a (new_map ps ox oy) = Inr (mr\<lparr>ground := g, trees := t\<rparr>) \<and>
           fst ` set t = {k \<in> fst ` set (density mr). eligible a (mr\<lparr>ground := g\<rparr>) k}"
proof -
  from read_spatial_summarises [OF c, of ps ox oy] obtain mr where
    mr: "read_spatial a (new_map ps ox oy) = Inr mr" "summarises a ps mr"
      "colours mr = []" "file_points mr = ps"
    by blast
  from smooth_ground_total [of a "ground mr"] obtain g where
    g: "smooth_ground a (ground mr) = Inr g" "map fst g = map fst (ground mr)"
    by blast
  then have "fst ` set g = fst ` set (ground mr)"
    by (metis set_map)
  then have keys: "fst ` set g = fst ` set (density mr)" "fst ` set (canopy mr) = fst ` set (density mr)"
    by (simp_all add: summarises_keys [OF mr(2)])
  have "\<forall>k \<in> fst ` set (density (mr\<lparr>ground := g\<rparr>)).
          map_of (canopy (mr\<lparr>ground := g\<rparr>)) k \<noteq> None \<and> map_of (ground (mr\<lparr>ground := g\<rparr>)) k \<noteq> None"
    using keys by (simp add: map_of_eq_None_iff)
  from tree_components_total [OF j this, of d] obtain t where
    "tree_components d a (mr\<lparr>ground := g\<rparr>) = Inr t"
    "fst ` set t = {k \<in> fst ` set (density mr). eligible a (mr\<lparr>ground := g\<rparr>) k}"
    by auto
  with mr g show ?thesis
    by (auto simp: update_spatial_def)
qed

lemma newpoints_filter:
  assumes "\<forall>p \<in> set ps. \<exists>k h. coords a p = Inr k \<and> map_of (ground m) k = Some h"
  shows "newpoints a m True True ps = Inr (filter (kept a (ground m)) ps)"
  using assms
proof (induction ps)
  case Nil
  then show ?case by simp
next
  case (Cons p ps)
  from Cons.prems obtain k h where kh: "coords a p = Inr k" "map_of (ground m) k = Some h"
    by auto
  then have "keep_point a m True True p = Inr (kept a (ground m) p)"
    by (auto simp: keep_point_def is_ground_def is_lowest_def getitem_def kept_def)
  with Cons show ?case by simp
qed

lemma cell_points_filter: "cell_points a (filter P ps) k = filter P (cell_points a ps k)"
  by (simp add: cell_points_def conj_commute)

lemma kept_cell:
  assumes ne: "cell_points a ps k \<noteq> []"
    and g: "map_of g k = Some (Min (p_z ` set (cell_points a ps k)))"
  shows "filter (kept a g) (cell_points a ps k) \<noteq> []"
    and "Min (p_z ` set (filter (kept a g) (cell_points a ps k))) = Min (p_z ` set (cell_points a ps k))"
    and "grounddepth a \<le> Max (p_z ` set (cell_points a ps k)) - Min (p_z ` set (cell_points a ps k)) \<or>
         Max (p_z ` set (cell_points a ps k)) = Min (p_z ` set (cell_points a ps k)) \<Longrightarrow>
         Max (p_z ` set (filter (kept a g) (cell_points a ps k))) = Max (p_z ` set (cell_points a ps k))"
proof -
  define cp where "cp = cell_points a ps k"
  define lo where "lo = Min (p_z ` set cp)"
  define hi where "hi = Max (p_z ` set cp)"
  have fin: "finite (p_z ` set cp)" "p_z ` set cp \<noteq> {}"
    using ne by (simp_all add: cp_def)
  have in_cell: "coords a p = Inr k" if "p \<in> set cp" for p
    using that by (simp add: cp_def cell_points_def)
  have kept_iff: "kept a g p \<longleftrightarrow> grounddepth a \<le> p_z p - lo \<or> p_z p = lo" if "p \<in> set cp" for p
    using in_cell [OF that] g by (simp add: kept_def lo_def cp_def)
  have "lo \<in> p_z ` set cp"
    unfolding lo_def using fin by (rule Min_in)
  then obtain pl where pl: "pl \<in> set cp" "p_z pl = lo"
    by auto
  then have kl: "pl \<in> set (filter (kept a g) cp)"
    by (simp add: kept_iff)
  have "filter (kept a g) cp \<noteq> []"
  proof
    assume "filter (kept a g) cp = []"
    with kl show False by (simp only: list.set empty_iff)
  qed
  then show "filter (kept a g) (cell_points a ps k) \<noteq> []"
    by (simp add: cp_def)
  have lower: "lo \<le> z" if "z \<in> p_z ` set (filter (kept a g) cp)" for z
  proof -
    from that have "z \<in> p_z ` set cp" by auto
    with fin(1) show ?thesis unfolding lo_def by (simp add: Min_le)
  qed
  have "Min (p_z ` set (filter (kept a g) cp)) = lo"
  proof (rule Min_eqI)
    show "finite (p_z ` set (filter (kept a g) cp))" by simp
    show "lo \<le> z" if "z \<in> p_z ` set (filter (kept a g) cp)" for z
      using that by (rule lower)
    show "lo \<in> p_z ` set (filter (kept a g) cp)"
      using kl pl(2) by (metis imageI)
  qed
  then show "Min (p_z ` set (filter (kept a g) (cell_points a ps k))) = Min (p_z ` set (cell_points a ps k))"
    by (simp add: cp_def lo_def)
  assume "grounddepth a \<le> Max (p_z ` set (cell_points a ps k)) - Min (p_z ` set (cell_points a ps k)) \<or>
         Max (p_z ` set (cell_points a ps k)) = Min (p_z ` set (cell_points a ps k))"
  then have top: "grounddepth a \<le> hi - lo \<or> hi = lo"
    by (simp add: hi_def lo_def cp_def)
  have "hi \<in> p_z ` set cp"
    unfolding hi_def using fin by (rule Max_in)
  then obtain ph where ph: "ph \<in> set cp" "p_z ph = hi"
    by auto
  with top have kh: "ph \<in> set (filter (kept a g) cp)"
    by (simp add: kept_iff)
  have "Max (p_z ` set (filter (kept a g) cp)) = hi"
  proof (rule Max_eqI)
    show "finite (p_z ` set (filter (kept a g) cp))" by simp
    show "z \<le> hi" if "z \<in> p_z ` set (filter (kept a g) cp)" for z
    proof -
      from that have "z \<in> p_z ` set cp" by auto
      with fin(1) show ?thesis unfolding hi_def by (simp add: Max_ge)
    qed
    show "hi \<in> p_z ` set (filter (kept a g) cp)"
      using kh ph(2) by (metis imageI)
  qed
  then show "Max (p_z ` set (filter (kept a g) (cell_points a ps k))) = Max (p_z ` set (cell_points a ps k))"
    by (simp add: cp_def hi_def)
qed

lemma flagged_map_of:
  assumes "map_of g2 = map_of g1"
  shows "flagged a g2 k = flagged a g1 k"
proof -
  have "heights_of g2 ns = heights_of g1 ns" for ns
    by (simp add: heights_of_def assms)
  then show ?thesis
    by (simp add: flagged_def assms split: option.splits)
qed

lemma detect_issues_all_empty:
  "detect_issues a g (map fst g) = Inr [] \<longleftrightarrow> (\<forall>k \<in> fst ` set g. \<not> flagged a g k)"
proof -
  have "detect_issues a g (map fst g) = Inr (filter (flagged a g) (map fst g))"
    by (rule detect_issues_filter) simp
  then show ?thesis
    by (auto simp: filter_empty_conv)
qed

lemma stable_map_of:
  assumes "map_of g2 = map_of g1" and "detect_issues a g1 (map fst g1) = Inr []"
  shows "detect_issues a g2 (map fst g2) = Inr []"
proof -
  from assms(1) have "dom (map_of g2) = dom (map_of g1)" by simp
  then have "fst ` set g2 = fst ` set g1"
    by (simp only: dom_map_of_conv_image_fst)
  with assms(2) flagged_map_of [OF assms(1), of a] show ?thesis
    by (simp add: detect_issues_all_empty)
qed

lemma sparse_summary:
  assumes s: "summarises a ps mr" and s2: "summarises a (filter (kept a (ground mr)) ps) mr2"
  shows "map_of (ground mr2) k = map_of (ground mr) k"
    and "map_of (ground mr) k = Some g \<Longrightarrow> map_of (canopy mr) k = Some c' \<Longrightarrow>
         grounddepth a \<le> c' - g \<or> c' = g \<Longrightarrow> map_of (canopy mr2) k = Some c'"
proof -
  note at = summarisesD [OF s, of k]
  note at2 = summarisesD [OF s2, of k, unfolded cell_points_filter]
  show "map_of (ground mr2) k = map_of (ground mr) k"
  proof (cases "cell_points a ps k = []")
    case True
    then show ?thesis by (simp add: at at2)
  next
    case False
    then have "map_of (ground mr) k = Some (Min (p_z ` set (cell_points a ps k)))"
      by (simp add: at)
    from kept_cell(1,2) [OF False this] False show ?thesis
      by (simp add: at at2)
  qed
  assume "map_of (ground mr) k = Some g" "map_of (canopy mr) k = Some c'"
    "grounddepth a \<le> c' - g \<or> c' = g"
  then have ne: "cell_points a ps k \<noteq> []"
    and g: "map_of (ground mr) k = Some (Min (p_z ` set (cell_points a ps k)))"
    and top: "grounddepth a \<le> Max (p_z ` set (cell_points a ps k)) - Min (p_z ` set (cell_points a ps k)) \<or>
         Max (p_z ` set (cell_points a ps k)) = Min (p_z ` set (cell_points a ps k))"
    and c': "c' = Max (p_z ` set (cell_points a ps k))"
    using at by (auto split: if_splits)
  from kept_cell(1) [OF ne g] kept_cell(3) [OF ne g top] show "map_of (canopy mr2) k = Some c'"
    by (simp add: at2 c')
qed

text \<open>
  Claim C4, amended. Let the cell size and \<open>joinedcells\<close> be different from 0, and let
  the ground map read from the file be stable: \<^verbatim>\<open>detect_issues\<close> on all its cells returns
  the empty set, so smoothing leaves it as it is. Then the first pass succeeds, the sparse
  cloud of the points that are not ground or are lowest is written, the first pass over
  the sparse cloud succeeds, and it gives every cell the same ground height as the
  original (no cell is lost or added). It gives a cell the same canopy height as the
  original where the canopy of the original is at least \<open>grounddepth\<close> above the ground
  or equal to it.
\<close>

theorem sparse_round_trip:
  assumes c: "cellsize a \<noteq> 0" and j: "joinedcells a \<noteq> 0"
    and r: "read_spatial a (new_map ps ox oy) = Inr mr"
    and st: "detect_issues a (ground mr) (map fst (ground mr)) = Inr []"
  shows "\<exists>m m' written m2.
           update_spatial d a (new_map ps ox oy) = Inr m \<and>
           save_sparse_cloud a m True True = Inr (m', written) \<and>
           update_spatial d a (new_map written ox oy) = Inr m2 \<and>
           (\<forall>k. map_of (ground m2) k = map_of (ground m) k) \<and>
           (\<forall>k g h. map_of (ground m) k = Some g \<and> map_of (canopy m) k = Some h \<and>
                    (grounddepth a \<le> h - g \<or> h = g) \<longrightarrow> map_of (canopy m2) k = Some h)"
proof -
  from update_spatial_total [OF c j, of ps ox oy d] r obtain g t where
    s: "summarises a ps mr" and fp: "file_points mr = ps"
    and sm: "smooth_ground a (ground mr) = Inr g"
    and u: "update_spatial d a (new_map ps ox oy) = Inr (mr\<lparr>ground := g, trees := t\<rparr>)"
    by auto
  from smooth_ground_no_issues [OF st] sm have g: "g = ground mr" by simp
  define m where "m = mr\<lparr>ground := g, trees := t\<rparr>"
  have gm: "ground m = ground mr" and cm: "canopy m = canopy mr" and fm: "file_points m = ps"
    by (simp_all add: m_def g fp)
  define written where "written = filter (kept a (ground mr)) ps"
  have "\<forall>p \<in> set ps. \<exists>k h. coords a p = Inr k \<and> map_of (ground m) k = Some h"
  proof
    fix p assume p: "p \<in> set ps"
    obtain k where k: "coords a p = Inr k"
      using c by (simp add: coords_def)
    with p have "p \<in> set (cell_points a ps k)"
      by (simp add: cell_points_def)
    then have "cell_points a ps k \<noteq> []" by auto
    then have "map_of (ground m) k = Some (Min (p_z ` set (cell_points a ps k)))"
      by (simp add: gm summarisesD [OF s])
    with k show "\<exists>k h. coords a p = Inr k \<and> map_of (ground m) k = Some h" by blast
  qed
  then have "newpoints a m True True ps = Inr written"
    unfolding written_def gm [symmetric] by (rule newpoints_filter)
  then have sv: "save_sparse_cloud a m True True = Inr (m\<lparr>file_points := written\<rparr>, written)"
    by (simp add: save_sparse_cloud_def fm)
  from update_spatial_total [OF c j, of written ox oy d] obtain mr2 g2 t2 where
    s2: "summarises a written mr2"
    and sm2: "smooth_ground a (ground mr2) = Inr g2"
    and u2: "update_spatial d a (new_map written ox oy) = Inr (mr2\<lparr>ground := g2, trees := t2\<rparr>)"
    by blast
  note sp = sparse_summary [OF s s2 [unfolded written_def]]
  have "map_of (ground mr2) = map_of (ground mr)"
    using sp(1) by (rule ext)
  from stable_map_of [OF this st] have "smooth_ground a (ground mr2) = Inr (ground mr2)"
    by (rule smooth_ground_no_issues)
  with sm2 have g2: "g2 = ground mr2" by simp
  define m2 where "m2 = mr2\<lparr>ground := g2, trees := t2\<rparr>"
  have gm2: "ground m2 = ground mr2" and cm2: "canopy m2 = canopy mr2"
    by (simp_all add: m2_def g2)
  have "\<forall>k. map_of (ground m2) k = map_of (ground m) k"
    by (simp add: gm gm2 sp(1))
  moreover have "\<forall>k g h. map_of (ground m) k = Some g \<and> map_of (canopy m) k = Some h \<and>
                    (grounddepth a \<le> h - g \<or> h = g) \<longrightarrow> map_of (canopy m2) k = Some h"
    using sp(2) by (auto simp: gm cm cm2)
  ultimately show ?thesis
    using u u2 sv unfolding m_def [symmetric] m2_def [symmetric] by blast
qed

lemma example_args_simps:
  "cellsize example_args = 1" "joinedcells example_args = 3" "slicedepth example_args = 1/2"
  "grounddepth example_args = 1/5"
  by (simp_all add: example_args_def)

lemma flat_read:
  "read_spatial example_args (new_map flat_points 0 0) = Inr (flat_map flat_points (1/10) 2)"
  "read_spatial example_args (new_map [pt 0 0 0] 0 0) = Inr (flat_map [pt 0 0 0] 0 1)"
  by (simp_all add: read_spatial_def new_map_def flat_points_def pt_def example_args_def
        flat_map_def update_spatial_step_def coords_def getitem_def)

lemma flat_smooth: "smooth_ground example_args [((0, 0), 0)] = Inr [((0, 0), 0)]"
  by (rule smooth_ground_no_issues) (simp add: neighbors_eq heights_of_def)

lemma flat_spatial:
  "update_spatial d example_args (new_map flat_points 0 0) = Inr (flat_map flat_points (1/10) 2)"
  "update_spatial d example_args (new_map [pt 0 0 0] 0 0) = Inr (flat_map [pt 0 0 0] 0 1)"
  by (simp_all add: update_spatial_def flat_read flat_map_def flat_smooth tree_components_def
        example_args_simps key_scale_step_def getitem_def connected_components_def)

lemma flat_sparse:
  "save_sparse_cloud example_args (flat_map flat_points (1/10) 2) True True
     = Inr ((flat_map flat_points (1/10) 2)\<lparr>file_points := [pt 0 0 0]\<rparr>, [pt 0 0 0])"
  by (simp add: save_sparse_cloud_def flat_map_def flat_points_def pt_def keep_point_def
        is_ground_def is_lowest_def coords_def getitem_def example_args_def)

lemma ring_spatial_high:
  "update_spatial d example_args (new_map (ring_cloud 0 100) 0 0)
     = Inr ((ring_map 0 100)\<lparr>ground := ring_ground 102 100\<rparr>)"
  using ring_components_high [of d]
  by (simp add: update_spatial_def ring_read ring_map_def ring_smooth_high)

lemma ring_sparse_high:
  "save_sparse_cloud example_args ((ring_map 0 100)\<lparr>ground := ring_ground 102 100\<rparr>) True True
     = Inr ((ring_map 0 100)\<lparr>ground := ring_ground 102 100, file_points := tl (ring_cloud 0 100)\<rparr>,
            tl (ring_cloud 0 100))"
  by (simp add: save_sparse_cloud_def ring_map_def ring_cloud_def pt_def ring_ground_def
        keep_point_def is_ground_def is_lowest_def coords_def getitem_def example_args_def
        floor_minus_one)

lemma hollow_read:
  "read_spatial example_args (new_map (tl (ring_cloud 0 100)) 0 0) = Inr hollow_ring_map"
  by (simp add: read_spatial_def new_map_def ring_cloud_def pt_def example_args_def
        hollow_ring_map_def ring_ground_def ring_density_def update_spatial_step_def coords_def
        getitem_def floor_minus_one)

lemma hollow_smooth:
  "smooth_ground example_args (tl (ring_ground 0 100)) = Inr (tl (ring_ground 0 100))"
  by (rule smooth_ground_no_issues) (simp add: ring_ground_def neighbors_eq heights_of_def)

lemma hollow_components: "tree_components d example_args hollow_ring_map = Inr []"
  by (simp add: tree_components_def hollow_ring_map_def ring_ground_def ring_density_def
        example_args_def key_scale_step_def getitem_def connected_components_def)

lemma hollow_spatial:
  "update_spatial d example_args (new_map (tl (ring_cloud 0 100)) 0 0) = Inr hollow_ring_map"
  using hollow_components [of d]
  by (simp add: update_spatial_def hollow_read hollow_smooth)
     (simp add: hollow_ring_map_def hollow_smooth)

text \<open>
  Claim C4 as stated fails. A cell with the points \<open>(0,0,0)\<close> and \<open>(0,0,0.1)\<close> has canopy
  0.1; with \<open>grounddepth = 0.2\<close> the upper point is a ground point and not the lowest, so
  the sparse cloud holds the lower point only and its canopy is 0. In \<open>ring_cloud 0 100\<close>
  smoothing lifts the ground of the cell \<open>(0, 0)\<close> to 102, so its only point, of height
  0, is a ground point and not the lowest: the sparse cloud has no point in the cell.
\<close>

theorem sparse_round_trip_counterexample:
  "(\<exists>m m' written m2.
      update_spatial 1000 example_args (new_map flat_points 0 0) = Inr m \<and>
      save_sparse_cloud example_args m True True = Inr (m', written) \<and>
      update_spatial 1000 example_args (new_map written 0 0) = Inr m2 \<and>
      map_of (canopy m) (0, 0) = Some (1/10) \<and> map_of (canopy m2) (0, 0) = Some 0) \<and>
   (\<exists>m m' written m2.
      update_spatial 1000 example_args (new_map (ring_cloud 0 100) 0 0) = Inr m \<and>
      save_sparse_cloud example_args m True True = Inr (m', written) \<and>
      update_spatial 1000 example_args (new_map written 0 0) = Inr m2 \<and>
      map_of (ground m) (0, 0) = Some 102 \<and> map_of (ground m2) (0, 0) = None)"
proof -
  have "map_of (canopy (flat_map flat_points (1/10) 2)) (0, 0) = Some (1/10) \<and>
        map_of (canopy (flat_map [pt 0 0 0] 0 1)) (0, 0) = Some 0"
    by (simp add: flat_map_def)
  with flat_spatial [of 1000] flat_sparse have 1: "\<exists>m m' written m2.
      update_spatial 1000 example_args (new_map flat_points 0 0) = Inr m \<and>
      save_sparse_cloud example_args m True True = Inr (m', written) \<and>
      update_spatial 1000 example_args (new_map written 0 0) = Inr m2 \<and>
      map_of (canopy m) (0, 0) = Some (1/10) \<and> map_of (canopy m2) (0, 0) = Some 0"
    by blast
  have "map_of (ground ((ring_map 0 100)\<lparr>ground := ring_ground 102 100\<rparr>)) (0, 0) = Some 102 \<and>
        map_of (ground hollow_ring_map) (0, 0) = None"
    by (simp add: hollow_ring_map_def ring_ground_def)
  with ring_spatial_high [of 1000] ring_sparse_high hollow_spatial [of 1000] have 2: "\<exists>m m' written m2.
      update_spatial 1000 example_args (new_map (ring_cloud 0 100) 0 0) = Inr m \<and>
      save_sparse_cloud example_args m True True = Inr (m', written) \<and>
      update_spatial 1000 example_args (new_map written 0 0) = Inr m2 \<and>
      map_of (ground m) (0, 0) = Some 102 \<and> map_of (ground m2) (0, 0) = None"
    by blast
  from 1 2 show ?thesis by blast
qed

text \<open>The theorem for claim C4 at the four points of the example.\<close>

theorem sparse_round_trip_witness:
  "cellsize example_args \<noteq> 0 \<and> joinedcells example_args \<noteq> 0 \<and>
   read_spatial example_args (new_map example_points 0 0) = Inr (example_map 0 0) \<and>
   detect_issues example_args (ground (example_map 0 0)) (map fst (ground (example_map 0 0))) = Inr [] \<and>
   (\<exists>m m' written m2.
      update_spatial 1000 example_args (new_map example_points 0 0) = Inr m \<and>
      save_sparse_cloud example_args m True True = Inr (m', written) \<and>
      update_spatial 1000 example_args (new_map written 0 0) = Inr m2 \<and>
      map_of (ground m2) (0, 0) = Some 0 \<and> map_of (canopy m2) (0, 0) = Some 3)"
proof -
  have c: "cellsize example_args \<noteq> 0" and j: "joinedcells example_args \<noteq> 0"
    by (simp_all add: example_args_def)
  have r: "read_spatial example_args (new_map example_points 0 0) = Inr (example_map 0 0)"
    by (rule example_read)
  have st: "detect_issues example_args (ground (example_map 0 0)) (map fst (ground (example_map 0 0))) = Inr []"
    by (simp add: example_map_def neighbors_eq heights_of_def)
  from sparse_round_trip [OF c j r st, of 1000] obtain m m' written m2 where
    u: "update_spatial 1000 example_args (new_map example_points 0 0) = Inr m"
    and sv: "save_sparse_cloud example_args m True True = Inr (m', written)"
    and u2: "update_spatial 1000 example_args (new_map written 0 0) = Inr m2"
    and gr: "\<forall>k. map_of (ground m2) k = map_of (ground m) k"
    and ca: "\<forall>k g h. map_of (ground m) k = Some g \<and> map_of (canopy m) k = Some h \<and>
                    (grounddepth example_args \<le> h - g \<or> h = g) \<longrightarrow> map_of (canopy m2) k = Some h"
    by blast
  from u have m: "m = (example_map 0 0)\<lparr>trees := [((1, 0), 0), ((0, 0), 0)]\<rparr>"
    by (simp add: example_spatial)
  have g0: "map_of (ground m) (0, 0) = Some 0" and c0: "map_of (canopy m) (0, 0) = Some 3"
    by (simp_all add: m example_map_def)
  have "grounddepth example_args \<le> 3 - 0"
    by (simp add: example_args_def)
  with ca g0 c0 have "map_of (canopy m2) (0, 0) = Some 3"
    by blast
  moreover from gr g0 have "map_of (ground m2) (0, 0) = Some 0"
    by simp
  ultimately show ?thesis
    using c j r st u sv u2 by blast
qed

section \<open>The second pass\<close>

text \<open>
  Each step of the loop of \<^verbatim>\<open>update_colours\<close> keeps the relation \<open>coloured\<close>, where all
  points have the same attribute names.
\<close>

lemma add_colour_fold:
  "set (map fst cs) \<subseteq> fst ` set totals \<Longrightarrow>
   \<exists>totals'. fold_err add_colour totals cs = Inr totals' \<and> map fst totals' = map fst totals"
proof (induction cs arbitrary: totals)
  case Nil
  then show ?case by simp
next
  case (Cons kv cs)
  from Cons.prems have "fst kv \<in> fst ` set totals" by simp
  then obtain t where t: "map_of totals (fst kv) = Some t"
    by (metis domD dom_map_of_conv_image_fst)
  have k: "map fst (AList.update (fst kv) (t + snd kv) totals) = map fst totals"
    using \<open>fst kv \<in> fst ` set totals\<close> by (rule keys_update_present)
  then have "fst ` set (AList.update (fst kv) (t + snd kv) totals) = fst ` set totals"
    by (metis set_map)
  with Cons.prems have "set (map fst cs) \<subseteq> fst ` set (AList.update (fst kv) (t + snd kv) totals)"
    by simp
  from Cons.IH [OF this] k show ?case
    by (simp add: add_colour_def getitem_def t)
qed

lemma update_colours_step_coloured:
  assumes inv: "coloured a names m0 qs m"
    and k: "coords a p = Inr k"
    and h: "map_of (ground m0) k = Some h"
    and n: "map_of (filtered_density m0) k = Some n"
    and names: "map fst (p_cols p) = names"
  shows "\<exists>m'. update_colours_step a m p = Inr m' \<and> coloured a names m0 (qs @ [p]) m'"
proof -
  from inv have fr: "ground m = ground m0" "canopy m = canopy m0" "density m = density m0"
    "trees m = trees m0" "utm_x m = utm_x m0" "utm_y m = utm_y m0" "file_points m = file_points m0"
    and fd: "\<And>k. map_of (filtered_density m) k =
            map_option (\<lambda>n. n + int (length (filter (nonground a (ground m0)) (cell_points a qs k))))
              (map_of (filtered_density m0) k)"
    and co: "\<And>k. map_of (colours m) k \<noteq> None \<longleftrightarrow>
            filter (nonground a (ground m0)) (cell_points a qs k) \<noteq> []"
    and sch: "\<And>k totals. map_of (colours m) k = Some totals \<Longrightarrow> map fst totals = names"
    unfolding coloured_def by blast+
  have ng: "nonground a (ground m0) p \<longleftrightarrow> \<not> p_z p - h < grounddepth a"
    by (auto simp: nonground_def k h)
  have isg: "is_ground a m p = Inr (p_z p - h < grounddepth a)"
    by (simp add: is_ground_def k fr h getitem_def)
  show ?thesis
  proof (cases "p_z p - h < grounddepth a")
    case True
    then have "update_colours_step a m p = Inr m"
      by (simp add: update_colours_step_def isg)
    moreover have "filter (nonground a (ground m0)) (cell_points a (qs @ [p]) k')
                   = filter (nonground a (ground m0)) (cell_points a qs k')" for k'
      using True by (simp add: cell_points_snoc ng)
    then have "coloured a names m0 (qs @ [p]) m"
      using inv by (simp add: coloured_def)
    ultimately show ?thesis by blast
  next
    case False
    define n' where "n' = n + int (length (filter (nonground a (ground m0)) (cell_points a qs k)))"
    have fdk: "map_of (filtered_density m) k = Some n'"
      by (simp add: fd n n'_def)
    have cnt: "filter (nonground a (ground m0)) (cell_points a (qs @ [p]) k')
                 = (if k' = k then filter (nonground a (ground m0)) (cell_points a qs k) @ [p]
                    else filter (nonground a (ground m0)) (cell_points a qs k'))" for k'
      using False by (auto simp: cell_points_snoc ng k)
    obtain totals' where
      st: "update_colours_step a m p =
             Inr (m\<lparr>filtered_density := AList.update k (n' + 1) (filtered_density m),
                    colours := AList.update k totals' (colours m)\<rparr>)"
      and tn: "map fst totals' = names"
    proof (cases "map_of (colours m) k")
      case None
      then have "update_colours_step a m p =
             Inr (m\<lparr>filtered_density := AList.update k (n' + 1) (filtered_density m),
                    colours := AList.update k (p_cols p) (colours m)\<rparr>)"
        using False by (simp add: update_colours_step_def isg k fdk getitem_def)
      with names that show ?thesis by blast
    next
      case (Some totals)
      then have "map fst totals = names" by (rule sch)
      with names have "set (map fst (p_cols p)) \<subseteq> fst ` set totals"
        by (metis set_map subset_refl)
      from add_colour_fold [OF this] obtain totals' where
        t': "fold_err add_colour totals (p_cols p) = Inr totals'" "map fst totals' = map fst totals"
        by blast
      then have "update_colours_step a m p =
             Inr (m\<lparr>filtered_density := AList.update k (n' + 1) (filtered_density m),
                    colours := AList.update k totals' (colours m)\<rparr>)"
        using False Some by (simp add: update_colours_step_def isg k fdk getitem_def)
      with t'(2) \<open>map fst totals = names\<close> that show ?thesis by simp
    qed
    define m' where "m' = m\<lparr>filtered_density := AList.update k (n' + 1) (filtered_density m),
                    colours := AList.update k totals' (colours m)\<rparr>"
    have "coloured a names m0 (qs @ [p]) m'"
      unfolding coloured_def
    proof (intro conjI allI impI)
      show "ground m' = ground m0" "canopy m' = canopy m0" "density m' = density m0"
        "trees m' = trees m0" "utm_x m' = utm_x m0" "utm_y m' = utm_y m0"
        "file_points m' = file_points m0"
        by (simp_all add: m'_def fr)
    next
      fix k'
      show "map_of (filtered_density m') k' =
            map_option (\<lambda>n. n + int (length (filter (nonground a (ground m0)) (cell_points a (qs @ [p]) k'))))
              (map_of (filtered_density m0) k')"
        by (simp add: m'_def update_conv' cnt fd n n'_def)
    next
      fix k'
      show "map_of (colours m') k' \<noteq> None \<longleftrightarrow>
            filter (nonground a (ground m0)) (cell_points a (qs @ [p]) k') \<noteq> []"
        using co [of k'] by (simp add: m'_def update_conv' cnt)
    next
      fix k' totals
      assume "map_of (colours m') k' = Some totals"
      then show "map fst totals = names"
        using sch [of k' totals] tn by (auto simp: m'_def update_conv' split: if_splits)
    qed
    with st show ?thesis
      unfolding m'_def by blast
  qed
qed

lemma update_colours_fold_coloured:
  assumes ok: "\<forall>p \<in> set ps. \<exists>k h n. coords a p = Inr k \<and> map_of (ground m0) k = Some h \<and>
                 map_of (filtered_density m0) k = Some n \<and> map fst (p_cols p) = names"
  shows "coloured a names m0 qs m \<Longrightarrow>
         \<exists>m'. fold_err (update_colours_step a) m ps = Inr m' \<and> coloured a names m0 (qs @ ps) m'"
  using ok
proof (induction ps arbitrary: qs m)
  case Nil
  then show ?case by simp
next
  case (Cons p ps)
  from Cons.prems(2) obtain k h n where
    "coords a p = Inr k" "map_of (ground m0) k = Some h" "map_of (filtered_density m0) k = Some n"
    "map fst (p_cols p) = names"
    by auto
  from update_colours_step_coloured [OF Cons.prems(1) this] obtain m1 where
    m1: "update_colours_step a m p = Inr m1" "coloured a names m0 (qs @ [p]) m1"
    by blast
  from Cons.prems(2) have "\<forall>p \<in> set ps. \<exists>k h n. coords a p = Inr k \<and> map_of (ground m0) k = Some h \<and>
                 map_of (filtered_density m0) k = Some n \<and> map fst (p_cols p) = names"
    by simp
  from Cons.IH [OF m1(2) this] m1(1) show ?case
    by simp
qed

lemma coloured_start: "colours m0 = [] \<Longrightarrow> coloured a names m0 [] m0"
  by (simp add: coloured_def cell_points_def option.map_ident)

lemma update_colours_coloured:
  assumes "colours m0 = []"
    and "\<forall>p \<in> set (file_points m0). \<exists>k h n. coords a p = Inr k \<and> map_of (ground m0) k = Some h \<and>
                 map_of (filtered_density m0) k = Some n \<and> map fst (p_cols p) = names"
  shows "\<exists>m. update_colours a m0 = Inr m \<and> coloured a names m0 (file_points m0) m"
  using update_colours_fold_coloured [OF assms(2) coloured_start [OF assms(1)]]
  by (simp add: update_colours_def)

section \<open>When the rows can be built\<close>

text \<open>
  \<^verbatim>\<open>tree_data\<close> succeeds on a set of complete cells that is not empty.
\<close>

lemma sum_ground_total:
  "\<forall>k \<in> set keys. map_of (ground m) k \<noteq> None \<Longrightarrow>
   \<exists>s'. fold_err (\<lambda>s k. case getitem (ground m) k of Inl e \<Rightarrow> Inl e | Inr g \<Rightarrow> Inr (s + g)) s keys = Inr s'"
  by (induction keys arbitrary: s) (auto simp: getitem_def)

lemma set_colour_fold_total:
  assumes "map_of (filtered_density m) k = Some n" and "n \<noteq> 0"
  shows "\<exists>out'. fold_err (set_colour m k) out totals = Inr out'"
  using assms by (induction totals arbitrary: out) (simp_all add: set_colour_def getitem_def)

lemma tree_data_step_total:
  assumes "map_of (canopy m) k = Some c" "map_of (ground m) k = Some g"
    "map_of (density m) k = Some n" "map_of (colours m) k = Some totals"
    "map_of (filtered_density m) k = Some fd" "fd \<noteq> 0"
  shows "\<exists>out'. tree_data_step m out k = Inr out'"
  using set_colour_fold_total [OF assms(5,6)] assms(1-4)
  by (simp add: tree_data_step_def getitem_def)

lemma tree_data_fold_total:
  "\<forall>k \<in> set keys. complete_cell m k \<Longrightarrow> \<exists>out'. fold_err (tree_data_step m) out keys = Inr out'"
proof (induction keys arbitrary: out)
  case Nil
  then show ?case by simp
next
  case (Cons k keys)
  from Cons.prems have "complete_cell m k" by simp
  then obtain c g n totals fd where
    "map_of (canopy m) k = Some c" "map_of (ground m) k = Some g"
    "map_of (density m) k = Some n" "map_of (colours m) k = Some totals"
    "map_of (filtered_density m) k = Some fd" "fd \<noteq> 0"
    by (auto simp: complete_cell_def split: option.splits)
  from tree_data_step_total [OF this] obtain out1 where "tree_data_step m out k = Inr out1"
    by blast
  moreover from Cons.prems have "\<forall>k \<in> set keys. complete_cell m k" by simp
  from Cons.IH [OF this] obtain out' where "fold_err (tree_data_step m) out1 keys = Inr out'"
    by blast
  ultimately show ?case by simp
qed

lemma tree_data_total:
  assumes "keys \<noteq> []" and "\<forall>k \<in> set keys. complete_cell m k"
  shows "\<exists>t. tree_data to_latlon a m keys = Inr t"
proof -
  from assms(2) have "\<forall>k \<in> set keys. map_of (ground m) k \<noteq> None"
    by (simp add: complete_cell_def)
  from sum_ground_total [OF this] obtain s where s: "sum_ground m keys = Inr s"
    unfolding sum_ground_def by blast
  from tree_data_fold_total [OF assms(2)] assms(1) s show ?thesis
    by (simp add: tree_data_def Let_def)
qed

lemma yield_trees_total:
  "\<forall>v \<in> set ids. \<exists>t. tree_data to_latlon a m (keys_of m v) = Inr t \<Longrightarrow>
   \<exists>rows. yield_trees to_latlon a m ids = Inr rows"
proof (induction ids)
  case Nil
  then show ?case by simp
next
  case (Cons v ids)
  then obtain t rows where "tree_data to_latlon a m (keys_of m v) = Inr t"
    "yield_trees to_latlon a m ids = Inr rows"
    by auto
  then show ?case by simp
qed

lemma all_trees_total:
  assumes "\<forall>k \<in> fst ` set (trees m). complete_cell m k"
  shows "\<exists>rows. all_trees to_latlon a m = Inr rows"
  unfolding all_trees_def
proof (rule yield_trees_total, rule ballI)
  fix v assume "v \<in> set (remdups (map snd (trees m)))"
  then obtain k where kv: "(k, v) \<in> set (trees m)"
    by auto
  then have "k \<in> set (keys_of m v)"
    by (force simp: keys_of_def)
  then have ne: "keys_of m v \<noteq> []" by auto
  have "set (keys_of m v) \<subseteq> fst ` set (trees m)"
    by (auto simp: keys_of_def)
  with assms have "\<forall>k \<in> set (keys_of m v). complete_cell m k"
    by blast
  with ne show "\<exists>t. tree_data to_latlon a m (keys_of m v) = Inr t"
    by (rule tree_data_total)
qed

section \<open>The whole analysis on a sound configuration\<close>

text \<open>
  With \<open>grounddepth\<close> at most \<open>slicedepth\<close> the highest point of an eligible cell is not
  ground, so every cell of a tree has colour totals and \<^verbatim>\<open>main_processing\<close> returns rows.
  The filtered density of a cell is 1 more than the number of its points that are not
  ground.
\<close>

lemma colouredD:
  assumes "coloured a names m0 qs m"
  shows "ground m = ground m0" "canopy m = canopy m0" "density m = density m0" "trees m = trees m0"
    and "map_of (filtered_density m) k =
            map_option (\<lambda>n. n + int (length (filter (nonground a (ground m0)) (cell_points a qs k))))
              (map_of (filtered_density m0) k)"
    and "map_of (colours m) k \<noteq> None \<longleftrightarrow>
            filter (nonground a (ground m0)) (cell_points a qs k) \<noteq> []"
  using assms unfolding coloured_def by blast+

lemma tree_cells_complete:
  assumes s: "summarises a ps mr"
    and kg: "map fst g = map fst (ground mr)"
    and t: "fst ` set t = {k \<in> fst ` set (density mr). eligible a (mr\<lparr>ground := g\<rparr>) k}"
    and qs: "\<forall>p \<in> set ps. nonground a g p \<longrightarrow> p \<in> set qs"
    and co: "coloured a names (mr\<lparr>ground := g, trees := t, file_points := qs\<rparr>) qs m2"
    and le: "grounddepth a \<le> slicedepth a"
  shows "\<forall>k \<in> fst ` set (trees m2). complete_cell m2 k"
proof
  fix k assume "k \<in> fst ` set (trees m2)"
  have fr: "ground m2 = g" "canopy m2 = canopy mr" "density m2 = density mr" "trees m2 = t"
    and fd: "map_of (filtered_density m2) k =
            map_option (\<lambda>n. n + int (length (filter (nonground a g) (cell_points a qs k))))
              (map_of (filtered_density mr) k)"
    and cl: "map_of (colours m2) k \<noteq> None \<longleftrightarrow> filter (nonground a g) (cell_points a qs k) \<noteq> []"
    using colouredD [OF co] by simp_all
  from \<open>k \<in> fst ` set (trees m2)\<close> t have occ: "k \<in> fst ` set (density mr)"
    and el: "eligible a (mr\<lparr>ground := g\<rparr>) k"
    by (simp_all add: fr)
  from occ have ne: "cell_points a ps k \<noteq> []"
    by (simp add: summarises_keys [OF s])
  note at = summarisesD [OF s, of k]
  define hi where "hi = Max (p_z ` set (cell_points a ps k))"
  have ca: "map_of (canopy mr) k = Some hi"
    using ne by (simp add: at hi_def)
  from kg have "fst ` set g = fst ` set (ground mr)"
    by (metis set_map)
  with ne have "k \<in> fst ` set g"
    by (simp add: summarises_keys [OF s])
  then obtain h where h: "map_of g k = Some h"
    by (metis domD dom_map_of_conv_image_fst)
  from el have deep: "hi - h > slicedepth a"
    by (simp add: eligible_def ca h)
  have "hi \<in> p_z ` set (cell_points a ps k)"
    unfolding hi_def using ne by (intro Max_in) simp_all
  then obtain p where p: "p \<in> set (cell_points a ps k)" "p_z p = hi"
    by auto
  then have pk: "p \<in> set ps" "coords a p = Inr k"
    by (simp_all add: cell_points_def)
  from deep le have ng: "nonground a g p"
    by (simp add: nonground_def pk h p(2))
  with qs pk(1) have "p \<in> set qs" by blast
  with pk(2) ng have "p \<in> set (filter (nonground a g) (cell_points a qs k))"
    by (simp add: cell_points_def)
  then have "filter (nonground a g) (cell_points a qs k) \<noteq> []"
    by (metis empty_iff empty_set)
  with cl have col: "map_of (colours m2) k \<noteq> None"
    by blast
  have "map_of (filtered_density m2) k =
          Some (1 + int (length (filter (nonground a g) (cell_points a qs k))))"
    using ne by (simp add: fd at)
  then have fdk: "case map_of (filtered_density m2) k of None \<Rightarrow> False | Some fd \<Rightarrow> fd \<noteq> 0"
    by simp
  show "complete_cell m2 k"
    unfolding complete_cell_def using ne col fdk
    by (simp add: fr at h)
qed

lemma occupied_cell:
  assumes c: "cellsize a \<noteq> 0" and s: "summarises a ps mr" and kg: "map fst g = map fst (ground mr)"
    and p: "p \<in> set ps"
  shows "\<exists>k h. coords a p = Inr k \<and> map_of g k = Some h \<and> map_of (filtered_density mr) k = Some 1"
proof -
  obtain k where k: "coords a p = Inr k"
    using c by (simp add: coords_def)
  with p have "p \<in> set (cell_points a ps k)"
    by (simp add: cell_points_def)
  then have ne: "cell_points a ps k \<noteq> []" by auto
  from kg have "fst ` set g = fst ` set (ground mr)"
    by (metis set_map)
  with ne have "k \<in> fst ` set g"
    by (simp add: summarises_keys [OF s])
  then obtain h where "map_of g k = Some h"
    by (metis domD dom_map_of_conv_image_fst)
  with k ne show ?thesis
    by (simp add: summarisesD [OF s])
qed

lemma nonground_kept: "nonground a g p \<Longrightarrow> kept a g p"
  by (auto simp: nonground_def kept_def split: sum.splits option.splits)

lemma load_map_summary:
  assumes c: "cellsize a \<noteq> 0" and j: "joinedcells a \<noteq> 0"
    and names: "\<forall>p \<in> set ps. map fst (p_cols p) = names"
  shows "\<exists>mr g t m2. summarises a ps mr \<and> map fst g = map fst (ground mr) \<and>
           fst ` set t = {k \<in> fst ` set (density mr). eligible a (mr\<lparr>ground := g\<rparr>) k} \<and>
           load_map d a other (Some ps) ox oy = Inr m2 \<and>
           coloured a names (mr\<lparr>ground := g, trees := t, file_points := ps\<rparr>) ps m2"
    and "\<exists>mr g t m2. summarises a ps mr \<and> map fst g = map fst (ground mr) \<and>
           fst ` set t = {k \<in> fst ` set (density mr). eligible a (mr\<lparr>ground := g\<rparr>) k} \<and>
           load_map d a ps None ox oy = Inr m2 \<and>
           coloured a names (mr\<lparr>ground := g, trees := t, file_points := filter (kept a g) ps\<rparr>)
             (filter (kept a g) ps) m2"
proof -
  from update_spatial_total [OF c j, of ps ox oy d] obtain mr g t where
    s: "summarises a ps mr" and cl: "colours mr = []" and fp: "file_points mr = ps"
    and kg: "map fst g = map fst (ground mr)"
    and u: "update_spatial d a (new_map ps ox oy) = Inr (mr\<lparr>ground := g, trees := t\<rparr>)"
    and t: "fst ` set t = {k \<in> fst ` set (density mr). eligible a (mr\<lparr>ground := g\<rparr>) k}"
    by blast
  define m1 where "m1 = mr\<lparr>ground := g, trees := t\<rparr>"
  note cell = occupied_cell [OF c s kg]
  have pass2: "\<exists>m2. update_colours a (m1\<lparr>file_points := qs\<rparr>) = Inr m2 \<and>
                 coloured a names (mr\<lparr>ground := g, trees := t, file_points := qs\<rparr>) qs m2"
    if sub: "set qs \<subseteq> set ps" for qs
  proof -
    have "\<forall>p \<in> set (file_points (m1\<lparr>file_points := qs\<rparr>)).
            \<exists>k h n. coords a p = Inr k \<and> map_of (ground (m1\<lparr>file_points := qs\<rparr>)) k = Some h \<and>
              map_of (filtered_density (m1\<lparr>file_points := qs\<rparr>)) k = Some n \<and>
              map fst (p_cols p) = names"
      using sub cell names by (fastforce simp: m1_def)
    moreover have "colours (m1\<lparr>file_points := qs\<rparr>) = []"
      by (simp add: m1_def cl)
    ultimately obtain m2 where "update_colours a (m1\<lparr>file_points := qs\<rparr>) = Inr m2"
      "coloured a names (m1\<lparr>file_points := qs\<rparr>) (file_points (m1\<lparr>file_points := qs\<rparr>)) m2"
      using update_colours_coloured by blast
    then show ?thesis
      by (auto simp: m1_def)
  qed
  have same: "m1\<lparr>file_points := ps\<rparr> = m1"
    by (simp add: m1_def fp)
  from pass2 [of ps] obtain m2 where "update_colours a m1 = Inr m2"
    "coloured a names (mr\<lparr>ground := g, trees := t, file_points := ps\<rparr>) ps m2"
    by (auto simp: same)
  with u have "load_map d a other (Some ps) ox oy = Inr m2 \<and>
           coloured a names (mr\<lparr>ground := g, trees := t, file_points := ps\<rparr>) ps m2"
    by (simp add: load_map_def init_map_def m1_def)
  with s kg t show "\<exists>mr g t m2. summarises a ps mr \<and> map fst g = map fst (ground mr) \<and>
           fst ` set t = {k \<in> fst ` set (density mr). eligible a (mr\<lparr>ground := g\<rparr>) k} \<and>
           load_map d a other (Some ps) ox oy = Inr m2 \<and>
           coloured a names (mr\<lparr>ground := g, trees := t, file_points := ps\<rparr>) ps m2"
    by blast
  define written where "written = filter (kept a g) ps"
  have "\<forall>p \<in> set ps. \<exists>k h. coords a p = Inr k \<and> map_of (ground m1) k = Some h"
    using cell by (fastforce simp: m1_def)
  then have "newpoints a m1 True True ps = Inr (filter (kept a (ground m1)) ps)"
    by (rule newpoints_filter)
  then have sv: "save_sparse_cloud a m1 True True = Inr (m1\<lparr>file_points := written\<rparr>, written)"
    by (simp add: save_sparse_cloud_def written_def m1_def fp)
  have sub: "set written \<subseteq> set ps"
    by (auto simp: written_def)
  from pass2 [OF sub] obtain m3 where "update_colours a (m1\<lparr>file_points := written\<rparr>) = Inr m3"
    "coloured a names (mr\<lparr>ground := g, trees := t, file_points := written\<rparr>) written m3"
    by blast
  with u sv have "load_map d a ps None ox oy = Inr m3 \<and>
           coloured a names (mr\<lparr>ground := g, trees := t, file_points := written\<rparr>) written m3"
    by (simp add: load_map_def init_map_def m1_def)
  with s kg t show "\<exists>mr g t m2. summarises a ps mr \<and> map fst g = map fst (ground mr) \<and>
           fst ` set t = {k \<in> fst ` set (density mr). eligible a (mr\<lparr>ground := g\<rparr>) k} \<and>
           load_map d a ps None ox oy = Inr m2 \<and>
           coloured a names (mr\<lparr>ground := g, trees := t, file_points := filter (kept a g) ps\<rparr>)
             (filter (kept a g) ps) m2"
    unfolding written_def by blast
qed

lemma main_processing_total:
  assumes c: "cellsize a \<noteq> 0" and j: "joinedcells a \<noteq> 0"
    and le: "grounddepth a \<le> slicedepth a"
    and names: "\<forall>p \<in> set ps. map fst (p_cols p) = names"
  shows "\<exists>rows. main_processing to_latlon d a ps None ox oy = Inr rows"
    and "\<exists>rows. main_processing to_latlon d a other (Some ps) ox oy = Inr rows"
proof -
  from load_map_summary(2) [OF c j names, of d ox oy] obtain mr g t m2 where
    s: "summarises a ps mr" "map fst g = map fst (ground mr)"
      "fst ` set t = {k \<in> fst ` set (density mr). eligible a (mr\<lparr>ground := g\<rparr>) k}"
    and l: "load_map d a ps None ox oy = Inr m2"
    and co: "coloured a names (mr\<lparr>ground := g, trees := t, file_points := filter (kept a g) ps\<rparr>)
             (filter (kept a g) ps) m2"
    by blast
  have "\<forall>p \<in> set ps. nonground a g p \<longrightarrow> p \<in> set (filter (kept a g) ps)"
    by (simp add: nonground_kept)
  from tree_cells_complete [OF s this co le] have "\<exists>rows. all_trees to_latlon a m2 = Inr rows"
    by (rule all_trees_total)
  with l show "\<exists>rows. main_processing to_latlon d a ps None ox oy = Inr rows"
    by (simp add: main_processing_def)
  from load_map_summary(1) [OF c j names, of d other ox oy] obtain mr g t m2 where
    s: "summarises a ps mr" "map fst g = map fst (ground mr)"
      "fst ` set t = {k \<in> fst ` set (density mr). eligible a (mr\<lparr>ground := g\<rparr>) k}"
    and l: "load_map d a other (Some ps) ox oy = Inr m2"
    and co: "coloured a names (mr\<lparr>ground := g, trees := t, file_points := ps\<rparr>) ps m2"
    by blast
  have "\<forall>p \<in> set ps. nonground a g p \<longrightarrow> p \<in> set ps"
    by simp
  from tree_cells_complete [OF s this co le] have "\<exists>rows. all_trees to_latlon a m2 = Inr rows"
    by (rule all_trees_total)
  with l show "\<exists>rows. main_processing to_latlon d a other (Some ps) ox oy = Inr rows"
    by (simp add: main_processing_def)
qed

lemma filtered_density_counts:
  assumes c: "cellsize a \<noteq> 0" and j: "joinedcells a \<noteq> 0"
    and names: "\<forall>p \<in> set ps. map fst (p_cols p) = names"
  shows "\<exists>m. load_map d a other (Some ps) ox oy = Inr m \<and>
           (\<forall>k. map_of (density m) k =
                  (if cell_points a ps k = [] then None
                   else Some (int (length (cell_points a ps k))))) \<and>
           (\<forall>k. map_of (filtered_density m) k =
                  (if cell_points a ps k = [] then None
                   else Some (1 + int (length (filter (nonground a (ground m)) (cell_points a ps k))))))"
proof -
  from load_map_summary(1) [OF c j names, of d other ox oy] obtain mr g t m2 where
    s: "summarises a ps mr"
    and l: "load_map d a other (Some ps) ox oy = Inr m2"
    and co: "coloured a names (mr\<lparr>ground := g, trees := t, file_points := ps\<rparr>) ps m2"
    by blast
  note cd = colouredD [OF co]
  have "map_of (density m2) k =
          (if cell_points a ps k = [] then None else Some (int (length (cell_points a ps k))))" for k
    by (simp add: cd summarisesD [OF s])
  moreover have "map_of (filtered_density m2) k =
          (if cell_points a ps k = [] then None
           else Some (1 + int (length (filter (nonground a (ground m2)) (cell_points a ps k)))))" for k
    by (simp add: cd summarisesD [OF s])
  ultimately show ?thesis
    using l by blast
qed

end
